theory Spec2Isabelle
  imports Main
begin

chapter \<open>Dataset providers and pipeline sinks of rt-docetl\<close>

text \<open>
  A shallow embedding of \<^verbatim>\<open>server/app/providers/datasets.py\<close> and
  \<^verbatim>\<open>server/app/providers/pipelines.py\<close>.

  Conventions.
  \<^item> Python \<^verbatim>\<open>bytes\<close> is a \<open>char list\<close> (an Isabelle \<open>char\<close> is one byte).
  \<^item> A Python \<^verbatim>\<open>str\<close> that names something (namespace, pipeline name, file name, URL)
    is a \<open>string\<close>, which covers the code points below 256. A \<^verbatim>\<open>str\<close> that holds
    document text (decoded file content, YAML text, JSON text) is a list of code points.
  \<^item> An exception is a value of \<open>error\<close>; a function that touches the file system takes
    the file system and returns the outcome together with the file system it leaves,
    so the effects that precede a raise are kept.
  \<^item> The HTTP client, the storage client, the storage configuration, the layout
    resolver and the clock are collaborators outside the repository: they are
    parameters of the model.
\<close>

section \<open>Python strings and dictionaries\<close>

type_synonym bytes = "char list"
type_synonym ustr = "nat list"

text \<open>\<^verbatim>\<open>s.startswith(p)\<close>, \<^verbatim>\<open>s.endswith(p)\<close> and \<^verbatim>\<open>p in s\<close>.\<close>

fun startswith :: "'a list \<Rightarrow> 'a list \<Rightarrow> bool" where
  "startswith s [] = True"
| "startswith [] (p # ps) = False"
| "startswith (x # xs) (p # ps) = (x = p \<and> startswith xs ps)"

definition endswith :: "'a list \<Rightarrow> 'a list \<Rightarrow> bool" where
  "endswith s p = startswith (rev s) (rev p)"

text \<open>\<^verbatim>\<open>s.split(c)\<close> for a separator of one element; the result is never empty.\<close>

fun split_char :: "'a \<Rightarrow> 'a list \<Rightarrow> 'a list list" where
  "split_char c [] = [[]]"
| "split_char c (x # xs) =
     (if x = c then [] # split_char c xs
      else (case split_char c xs of
              [] \<Rightarrow> [[x]]
            | p # ps \<Rightarrow> (x # p) # ps))"

text \<open>\<^verbatim>\<open>sep.join(parts)\<close>.\<close>

fun join :: "'a list \<Rightarrow> 'a list list \<Rightarrow> 'a list" where
  "join sep [] = []"
| "join sep [p] = p"
| "join sep (p # q # ps) = p @ sep @ join sep (q # ps)"

text \<open>
  \<^verbatim>\<open>s.replace(old, new)\<close>: every occurrence of \<open>old\<close>, left to right, without
  overlap. Every call of the source passes a non-empty \<open>old\<close>; for an empty \<open>old\<close>
  (where Python inserts \<open>new\<close> around every character) the model leaves \<open>s\<close> as it is.
\<close>

function replace :: "string \<Rightarrow> string \<Rightarrow> string \<Rightarrow> string" where
  "replace [] old new = []"
| "replace (x # xs) old new =
     (if old \<noteq> [] \<and> startswith (x # xs) old
      then new @ replace (drop (length old) (x # xs)) old new
      else x # replace xs old new)"
  by pat_completeness auto
termination
  by (relation "measure (\<lambda>(s, old, new). length s)") (auto simp: Suc_diff_le)

text \<open>
  \<^verbatim>\<open>s.lower()\<close> on the code points below 256: A-Z and the Latin-1 capitals
  (0xC0-0xDE without the multiplication sign 0xD7) move up by 32.
\<close>

definition lower_char :: "char \<Rightarrow> char" where
  "lower_char c =
     (let n = (of_char c :: nat)
      in if (65 \<le> n \<and> n \<le> 90) \<or> (192 \<le> n \<and> n \<le> 222 \<and> n \<noteq> 215)
         then char_of (n + 32) else c)"

definition lower :: "string \<Rightarrow> string" where
  "lower s = map lower_char s"

text \<open>Decimal digits: \<^verbatim>\<open>str(n)\<close> and the zero-padded fields of a format.\<close>

definition digit_char :: "nat \<Rightarrow> char" where
  "digit_char n = ''0123456789'' ! (n mod 10)"

fun str_of_nat :: "nat \<Rightarrow> string" where
  "str_of_nat n =
     (if n < 10 then [digit_char n] else str_of_nat (n div 10) @ [digit_char (n mod 10)])"

definition str_of_int :: "int \<Rightarrow> string" where
  "str_of_int i = (if i < 0 then CHR ''-'' # str_of_nat (nat (- i)) else str_of_nat (nat i))"

fun zero_padded :: "nat \<Rightarrow> nat \<Rightarrow> string" where
  "zero_padded 0 n = []"
| "zero_padded (Suc k) n = zero_padded k (n div 10) @ [digit_char (n mod 10)]"

text \<open>
  The values a \<^verbatim>\<open>dict[str, Any]\<close> of request metadata holds, their truth value
  (\<^verbatim>\<open>x or y\<close>) and their \<^verbatim>\<open>str()\<close> (an f-string field).
\<close>

datatype pyval = PNone | PBool bool | PInt int | PStr string

fun truthy :: "pyval \<Rightarrow> bool" where
  "truthy PNone = False"
| "truthy (PBool b) = b"
| "truthy (PInt i) = (i \<noteq> 0)"
| "truthy (PStr s) = (s \<noteq> [])"

definition py_or :: "pyval \<Rightarrow> pyval \<Rightarrow> pyval" where
  "py_or a b = (if truthy a then a else b)"

fun py_str :: "pyval \<Rightarrow> string" where
  "py_str PNone = ''None''"
| "py_str (PBool b) = (if b then ''True'' else ''False'')"
| "py_str (PInt i) = str_of_int i"
| "py_str (PStr s) = s"

text \<open>
  A \<^verbatim>\<open>dict\<close> keeps insertion order: an association list with distinct keys.
  \<^verbatim>\<open>d[k] = v\<close> replaces the value of a key in place or appends a new key;
  \<^verbatim>\<open>a | b\<close> stores the items of \<open>b\<close> into \<open>a\<close> in order.
\<close>

type_synonym ('k, 'v) dict = "('k \<times> 'v) list"

fun dict_set :: "('k, 'v) dict \<Rightarrow> 'k \<Rightarrow> 'v \<Rightarrow> ('k, 'v) dict" where
  "dict_set [] k v = [(k, v)]"
| "dict_set ((k', v') # d) k v =
     (if k' = k then (k', v) # d else (k', v') # dict_set d k v)"

definition dict_union :: "('k, 'v) dict \<Rightarrow> ('k, 'v) dict \<Rightarrow> ('k, 'v) dict" where
  "dict_union a b = foldl (\<lambda>d (k, v). dict_set d k v) a b"

definition dict_of_pairs :: "('k \<times> 'v) list \<Rightarrow> ('k, 'v) dict" where
  "dict_of_pairs ps = dict_union [] ps"

definition dict_keys :: "('k, 'v) dict \<Rightarrow> 'k list" where
  "dict_keys d = map fst d"

text \<open>\<^verbatim>\<open>metadata.get(k)\<close>: the value, or \<^verbatim>\<open>None\<close> for a missing key.\<close>

definition md_get :: "(string, pyval) dict \<Rightarrow> string \<Rightarrow> pyval" where
  "md_get d k = (case map_of d k of None \<Rightarrow> PNone | Some v \<Rightarrow> v)"

section \<open>UTF-8\<close>

text \<open>
  \<^verbatim>\<open>s.encode("utf-8")\<close>: a surrogate (0xD800-0xDFFF) cannot be encoded and raises
  \<^verbatim>\<open>UnicodeEncodeError\<close>, the value \<open>None\<close> here.
\<close>

definition utf8_encode_char :: "nat \<Rightarrow> bytes option" where
  "utf8_encode_char c =
     (if c < 0x80 then Some [char_of c]
      else if c < 0x800 then Some [char_of (0xC0 + c div 64), char_of (0x80 + c mod 64)]
      else if 0xD800 \<le> c \<and> c \<le> 0xDFFF then None
      else if c < 0x10000 then
        Some [char_of (0xE0 + c div 4096), char_of (0x80 + c div 64 mod 64),
              char_of (0x80 + c mod 64)]
      else if c < 0x110000 then
        Some [char_of (0xF0 + c div 262144), char_of (0x80 + c div 4096 mod 64),
              char_of (0x80 + c div 64 mod 64), char_of (0x80 + c mod 64)]
      else None)"

fun utf8_encode :: "ustr \<Rightarrow> bytes option" where
  "utf8_encode [] = Some []"
| "utf8_encode (c # cs) =
     (case utf8_encode_char c of
        None \<Rightarrow> None
      | Some b \<Rightarrow> (case utf8_encode cs of None \<Rightarrow> None | Some bs \<Rightarrow> Some (b @ bs)))"

section \<open>Exceptions\<close>

datatype os_error = FileExistsError | FileNotFoundError | NotADirectoryError | IsADirectoryError

text \<open>
  \<open>HTTPException status detail\<close>: the detail is the fixed text of the message (the
  text of a wrapped exception, where the source appends one, is left out).
  \<open>External\<close> is an exception raised inside a collaborator.
\<close>

datatype error =
    HTTPException nat string
  | UnicodeDecodeError
  | UnicodeEncodeError
  | AttributeError
  | CsvError
  | RecursionError
  | ValueError
  | OSError os_error
  | External string

section \<open>Paths and the file system\<close>

text \<open>
  A \<^verbatim>\<open>pathlib.PurePosixPath\<close>: its root (empty, one slash, or two slashes) and
  its parts. Parsing drops empty parts and the part \<^verbatim>\<open>.\<close>; a string with exactly two
  leading slashes keeps both.
\<close>

datatype path = Path (root: string) (parts: "string list")

definition splitroot :: "string \<Rightarrow> string \<times> string" where
  "splitroot p =
     (if take 1 p \<noteq> ''/'' then ('''', p)
      else if take 1 (drop 1 p) \<noteq> ''/'' \<or> take 1 (drop 2 p) = ''/'' then (''/'', drop 1 p)
      else (take 2 p, drop 2 p))"

definition parse_path :: "string \<Rightarrow> path" where
  "parse_path s =
     (case splitroot s of
        (r, rel) \<Rightarrow> Path r (filter (\<lambda>x. x \<noteq> [] \<and> x \<noteq> ''.'') (split_char CHR ''/'' rel)))"

text \<open>\<^verbatim>\<open>p / s\<close>: an absolute right operand replaces the left one.\<close>

definition path_join :: "path \<Rightarrow> string \<Rightarrow> path" where
  "path_join p s =
     (if startswith s ''/'' then parse_path s
      else Path (root p) (parts p @ parts (parse_path s)))"

definition path_str :: "path \<Rightarrow> string" where
  "path_str p =
     (if root p = [] \<and> parts p = [] then ''.''
      else root p @ join ''/'' (parts p))"

definition path_name :: "path \<Rightarrow> string" where
  "path_name p = (if parts p = [] then [] else last (parts p))"

definition parent :: "path \<Rightarrow> path" where
  "parent p = Path (root p) (butlast (parts p))"

text \<open>
  The paths pathlib builds: one of the three roots, and parts that are not empty,
  not \<^verbatim>\<open>.\<close> and free of slashes.
\<close>

definition wf_path :: "path \<Rightarrow> bool" where
  "wf_path p =
     (root p \<in> {[], ''/'', ''//''} \<and>
      (\<forall>x \<in> set (parts p). x \<noteq> [] \<and> x \<noteq> ''.'' \<and> CHR ''/'' \<notin> set x))"

text \<open>
  The file system maps a path to a file with its bytes or to a directory. The root
  and the current directory (a path without parts) are directories. Paths are
  compared as pathlib normalises them: permissions, symbolic links, the meaning of
  \<^verbatim>\<open>..\<close> and the limits of the operating system are outside the model.
\<close>

datatype node = File bytes | Dir

type_synonym fs = "path \<Rightarrow> node option"

definition lookup :: "fs \<Rightarrow> path \<Rightarrow> node option" where
  "lookup f p = (if parts p = [] then Some Dir else f p)"

definition exists :: "fs \<Rightarrow> path \<Rightarrow> bool" where
  "exists f p = (lookup f p \<noteq> None)"

text \<open>\<^verbatim>\<open>os.mkdir(p)\<close>.\<close>

definition os_mkdir :: "fs \<Rightarrow> path \<Rightarrow> os_error + fs" where
  "os_mkdir f p =
     (if parts p = [] then Inl FileExistsError
      else case lookup f (parent p) of
        None \<Rightarrow> Inl FileNotFoundError
      | Some (File _) \<Rightarrow> Inl NotADirectoryError
      | Some Dir \<Rightarrow>
          (case f p of
             Some _ \<Rightarrow> Inl FileExistsError
           | None \<Rightarrow> Inr (f(p \<mapsto> Dir))))"

definition is_dir :: "fs \<Rightarrow> path \<Rightarrow> bool" where
  "is_dir f p = (lookup f p = Some Dir)"

text \<open>
  \<^verbatim>\<open>p.mkdir(parents=True, exist_ok=True)\<close>, as pathlib writes it: try
  \<^verbatim>\<open>os.mkdir\<close>; on \<^verbatim>\<open>FileNotFoundError\<close> make the parent first and try once more;
  on another \<^verbatim>\<open>OSError\<close> succeed only when the path is a directory already.
\<close>

function mkdir_parents :: "fs \<Rightarrow> path \<Rightarrow> os_error + fs" where
  "mkdir_parents f p =
     (case os_mkdir f p of
        Inr f' \<Rightarrow> Inr f'
      | Inl e \<Rightarrow>
          (if e = FileNotFoundError then
             (if parts p = [] then Inl e
              else case mkdir_parents f (parent p) of
                Inl e' \<Rightarrow> Inl e'
              | Inr f' \<Rightarrow>
                  (case os_mkdir f' p of
                     Inr f'' \<Rightarrow> Inr f''
                   | Inl e' \<Rightarrow>
                       (if e' \<noteq> FileNotFoundError \<and> is_dir f' p then Inr f' else Inl e')))
           else if is_dir f p then Inr f else Inl e))"
  by pat_completeness auto
termination
  by (relation "measure (\<lambda>(f, p). length (parts p))") (auto simp: parent_def)

declare mkdir_parents.simps [simp del]

text \<open>Opening a file for writing creates it or truncates it.\<close>

definition open_w :: "fs \<Rightarrow> path \<Rightarrow> os_error + fs" where
  "open_w f p =
     (if parts p = [] then Inl IsADirectoryError
      else case lookup f (parent p) of
        None \<Rightarrow> Inl FileNotFoundError
      | Some (File _) \<Rightarrow> Inl NotADirectoryError
      | Some Dir \<Rightarrow>
          (case f p of
             Some Dir \<Rightarrow> Inl IsADirectoryError
           | _ \<Rightarrow> Inr (f(p \<mapsto> File []))))"

definition write_bytes :: "fs \<Rightarrow> path \<Rightarrow> bytes \<Rightarrow> os_error + fs" where
  "write_bytes f p data =
     (case open_w f p of
        Inl e \<Rightarrow> Inl e
      | Inr f' \<Rightarrow> Inr (f'(p \<mapsto> File data)))"

text \<open>
  \<^verbatim>\<open>p.write_text(s)\<close> opens the file, then encodes: text that cannot be encoded
  leaves an empty file behind. The encoding of the process is taken to be UTF-8.
\<close>

definition write_text :: "fs \<Rightarrow> path \<Rightarrow> ustr \<Rightarrow> (error + unit) \<times> fs" where
  "write_text f p s =
     (case open_w f p of
        Inl e \<Rightarrow> (Inl (OSError e), f)
      | Inr f' \<Rightarrow>
          (case utf8_encode s of
             None \<Rightarrow> (Inl UnicodeEncodeError, f')
           | Some data \<Rightarrow> (Inr (), f'(p \<mapsto> File data))))"

definition read_bytes :: "fs \<Rightarrow> path \<Rightarrow> os_error + bytes" where
  "read_bytes f p =
     (case lookup f p of
        None \<Rightarrow> Inl FileNotFoundError
      | Some Dir \<Rightarrow> Inl IsADirectoryError
      | Some (File data) \<Rightarrow> Inr data)"

section \<open>Pipeline sinks\<close>

record PipelineSaveResult =
  psr_path :: string
  uri :: "string option"
  manifest :: "(string, pyval) dict"
  input_path :: pyval
  output_path :: pyval

subsection \<open>The local sink\<close>

text \<open>
  \<^verbatim>\<open>LocalPipelineSink.save\<close>. \<open>home\<close> is the sink's \<^verbatim>\<open>home_dir\<close>; \<open>metadata\<close> is
  \<open>None\<close> or a dictionary (\<^verbatim>\<open>metadata or {}\<close>).
\<close>

definition or_empty :: "(string, pyval) dict option \<Rightarrow> (string, pyval) dict" where
  "or_empty m = (case m of None \<Rightarrow> [] | Some d \<Rightarrow> d)"

definition local_config_file :: "path \<Rightarrow> string \<Rightarrow> string \<Rightarrow> path" where
  "local_config_file home namespace name =
     path_join
       (path_join (path_join (path_join (path_join home ''.docetl'') namespace) ''pipelines'')
          ''configs'')
       (name @ ''.yaml'')"

definition LocalPipelineSink_save ::
  "path \<Rightarrow> fs \<Rightarrow> string \<Rightarrow> string \<Rightarrow> ustr \<Rightarrow> (string, pyval) dict option
     \<Rightarrow> (error + PipelineSaveResult) \<times> fs" where
  "LocalPipelineSink_save home f namespace name yaml_str metadata0 =
     (let metadata = or_empty metadata0;
          pipeline_dir = path_join (path_join (path_join home ''.docetl'') namespace) ''pipelines'';
          config_dir = path_join pipeline_dir ''configs'';
          name_dir = path_join (path_join pipeline_dir name) ''intermediates''
      in case mkdir_parents f config_dir of
           Inl e \<Rightarrow> (Inl (OSError e), f)
         | Inr f1 \<Rightarrow>
            (case mkdir_parents f1 name_dir of
               Inl e \<Rightarrow> (Inl (OSError e), f1)
             | Inr f2 \<Rightarrow>
                (let file_path = path_join config_dir (name @ ''.yaml'')
                 in case write_text f2 file_path yaml_str of
                      (Inl e, f3) \<Rightarrow> (Inl e, f3)
                    | (Inr _, f3) \<Rightarrow>
                        (Inr \<lparr> psr_path = path_str file_path,
                               uri = None,
                               manifest =
                                 [(''pipeline_id'', py_or (md_get metadata ''pipeline_id'') (PStr name)),
                                  (''version'', py_or (md_get metadata ''version'') (PStr ''local'')),
                                  (''owner'', md_get metadata ''owner''),
                                  (''sink'', PStr ''local'')],
                               input_path = md_get metadata ''input_path'',
                               output_path = md_get metadata ''output_path'' \<rparr>, f3))))"

subsection \<open>The storage client and the clock\<close>

text \<open>
  The object-storage client (\<^verbatim>\<open>utils.storage\<close>) is outside the repository. A
  \<open>store_request\<close> is the argument list of one \<^verbatim>\<open>store_file\<close> call; \<open>store_file\<close>
  answers with the \<^verbatim>\<open>path\<close> of the file reference (possibly \<^verbatim>\<open>None\<close>) or raises;
  \<open>bucket_name\<close> is \<^verbatim>\<open>getattr(getattr(storage, "provider", None), "bucket_name", "")\<close>.
\<close>

record upload_metadata =
  um_content_type :: string
  um_metadata :: "(string, pyval) dict"

record store_request =
  document_id :: string
  filename :: string
  sr_content :: bytes
  sr_metadata :: upload_metadata

record storage_client =
  get_file_from_uri :: "string \<Rightarrow> error + bytes"
  store_file :: "store_request \<Rightarrow> error + string option"
  bucket_name :: string

text \<open>
  What building a client from the environment gives: \<^verbatim>\<open>StorageConfig()\<close> raises,
  the configuration is disabled, \<^verbatim>\<open>build_storage_client\<close> raises
  \<^verbatim>\<open>ConfigurationError\<close> (with its message) or another exception, or a client.
\<close>

datatype storage_env =
    ConfigInvalid
  | ConfigDisabled
  | BuildConfigurationError string
  | BuildRaises string
  | BuildOk storage_client

text \<open>
  \<^verbatim>\<open>_ensure_storage\<close>: the client the object holds, or a new one, which the object
  then keeps. The result is the outcome and the client held afterwards. The two
  classes differ in the message for a disabled configuration.
\<close>

definition ensure_storage ::
  "string \<Rightarrow> storage_client option \<Rightarrow> storage_env
     \<Rightarrow> (error + storage_client) \<times> storage_client option" where
  "ensure_storage disabled_detail held env =
     (case held of
        Some c \<Rightarrow> (Inr c, held)
      | None \<Rightarrow>
          (case env of
             ConfigInvalid \<Rightarrow> (Inl (HTTPException 500 ''Invalid storage configuration: ''), None)
           | ConfigDisabled \<Rightarrow> (Inl (HTTPException 500 disabled_detail), None)
           | BuildConfigurationError msg \<Rightarrow> (Inl (HTTPException 500 msg), None)
           | BuildRaises msg \<Rightarrow> (Inl (External msg), None)
           | BuildOk c \<Rightarrow> (Inr c, Some c)))"

definition sink_ensure_storage ::
  "storage_client option \<Rightarrow> storage_env \<Rightarrow> (error + storage_client) \<times> storage_client option" where
  "sink_ensure_storage =
     ensure_storage ''Storage client disabled; set STORAGE__* to enable RT pipeline sink.''"

text \<open>
  A reading of \<^verbatim>\<open>datetime.now(timezone.utc)\<close>, its \<^verbatim>\<open>strftime("%Y%m%d%H%M%S")\<close> and
  its \<^verbatim>\<open>isoformat()\<close>. The year is printed with four digits.
\<close>

record datetime =
  year :: nat
  month :: nat
  day :: nat
  hour :: nat
  minute :: nat
  second :: nat
  microsecond :: nat

definition valid_datetime :: "datetime \<Rightarrow> bool" where
  "valid_datetime t =
     (1000 \<le> year t \<and> year t \<le> 9999 \<and> 1 \<le> month t \<and> month t \<le> 12 \<and>
      1 \<le> day t \<and> day t \<le> 31 \<and> hour t < 24 \<and> minute t < 60 \<and> second t < 60 \<and>
      microsecond t < 1000000)"

definition strftime_compact :: "datetime \<Rightarrow> string" where
  "strftime_compact t =
     zero_padded 4 (year t) @ zero_padded 2 (month t) @ zero_padded 2 (day t) @
     zero_padded 2 (hour t) @ zero_padded 2 (minute t) @ zero_padded 2 (second t)"

definition isoformat :: "datetime \<Rightarrow> string" where
  "isoformat t =
     zero_padded 4 (year t) @ ''-'' @ zero_padded 2 (month t) @ ''-'' @ zero_padded 2 (day t) @
     ''T'' @ zero_padded 2 (hour t) @ '':'' @ zero_padded 2 (minute t) @ '':'' @
     zero_padded 2 (second t) @
     (if microsecond t = 0 then [] else ''.'' @ zero_padded 6 (microsecond t)) @ ''+00:00''"

definition same_second :: "datetime \<Rightarrow> datetime \<Rightarrow> bool" where
  "same_second a b =
     (year a = year b \<and> month a = month b \<and> day a = day b \<and>
      hour a = hour b \<and> minute a = minute b \<and> second a = second b)"

subsection \<open>The RT sink\<close>

text \<open>
  \<^verbatim>\<open>RTPipelineSink.save\<close>. \<open>held\<close> is the sink's \<^verbatim>\<open>_storage_client\<close>, \<open>now_version\<close>
  and \<open>now_saved\<close> are the two readings of the clock. The result is the outcome, the
  client the sink holds afterwards, and the \<^verbatim>\<open>store_file\<close> calls made.
\<close>

definition object_key :: "store_request \<Rightarrow> string" where
  "object_key q = document_id q @ ''/'' @ filename q"

definition RTPipelineSink_save ::
  "storage_client option \<Rightarrow> storage_env \<Rightarrow> datetime \<Rightarrow> datetime \<Rightarrow> string \<Rightarrow> string
     \<Rightarrow> ustr \<Rightarrow> (string, pyval) dict option
     \<Rightarrow> (error + PipelineSaveResult) \<times> storage_client option \<times> store_request list" where
  "RTPipelineSink_save held env now_version now_saved namespace name yaml_str metadata0 =
     (let metadata = or_empty metadata0
      in case sink_ensure_storage held env of
           (Inl e, held') \<Rightarrow> (Inl e, held', [])
         | (Inr storage, held') \<Rightarrow>
            (let pipeline_id = py_or (md_get metadata ''pipeline_id'') (PStr name);
                 version = py_or (md_get metadata ''version'') (PStr (strftime_compact now_version));
                 owner = md_get metadata ''owner'';
                 prefix = ''specs/docetl/'' @ py_str pipeline_id;
                 fname = py_str version @ ''.yaml'';
                 upload = \<lparr> um_content_type = ''text/yaml'',
                            um_metadata = [(''pipeline_id'', pipeline_id), (''version'', version),
                                           (''owner'', owner), (''namespace'', PStr namespace)] \<rparr>
             in case utf8_encode yaml_str of
                  None \<Rightarrow> (Inl UnicodeEncodeError, held', [])
                | Some data \<Rightarrow>
                   (let req = \<lparr> document_id = prefix, filename = fname, sr_content = data,
                                 sr_metadata = upload \<rparr>
                    in case store_file storage req of
                         Inl e \<Rightarrow> (Inl e, held', [req])
                       | Inr ref_path \<Rightarrow>
                          (let bucket = bucket_name storage;
                               persisted_path =
                                 (case ref_path of
                                    None \<Rightarrow> prefix @ ''/'' @ fname
                                  | Some p \<Rightarrow> if p \<noteq> [] then p else prefix @ ''/'' @ fname);
                               u = (if bucket \<noteq> [] then ''gs://'' @ bucket @ ''/'' @ persisted_path
                                    else persisted_path)
                           in (Inr \<lparr> psr_path = u,
                                     uri = Some u,
                                     manifest =
                                       [(''pipeline_id'', pipeline_id), (''version'', version),
                                        (''owner'', owner), (''sink'', PStr ''rt''),
                                        (''uri'', PStr u),
                                        (''saved_at'', PStr (isoformat now_saved))],
                                     input_path = md_get metadata ''input_path'',
                                     output_path = md_get metadata ''output_path'' \<rparr>,
                               held', [req])))))"

section \<open>Decoding bytes\<close>

text \<open>
  \<^verbatim>\<open>b.decode("utf-8")\<close>, and \<^verbatim>\<open>b.decode("utf-8", "surrogatepass")\<close> when \<open>sp\<close> is set:
  the shortest encoding of every code point up to 0x10FFFF, the surrogates only with
  \<open>sp\<close>. \<open>None\<close> is \<^verbatim>\<open>UnicodeDecodeError\<close>.
\<close>

definition is_cont :: "char \<Rightarrow> bool" where
  "is_cont b = (0x80 \<le> (of_char b :: nat) \<and> (of_char b :: nat) \<le> 0xBF)"

definition cont_bits :: "char \<Rightarrow> nat" where
  "cont_bits b = of_char b - 0x80"

definition is_surrogate :: "nat \<Rightarrow> bool" where
  "is_surrogate c = (0xD800 \<le> c \<and> c \<le> 0xDFFF)"

definition cons_opt :: "'a \<Rightarrow> 'a list option \<Rightarrow> 'a list option" where
  "cons_opt x r = (case r of None \<Rightarrow> None | Some xs \<Rightarrow> Some (x # xs))"

text \<open>The first code point of a byte string and the number of its continuation bytes.\<close>

definition utf8_first :: "bool \<Rightarrow> bytes \<Rightarrow> (nat \<times> nat) option" where
  "utf8_first sp bs =
     (case bs of
        [] \<Rightarrow> None
      | b # rest \<Rightarrow>
         (let n = (of_char b :: nat)
          in if n < 0x80 then Some (n, 0)
             else if 0xC2 \<le> n \<and> n \<le> 0xDF then
               (case rest of
                  b1 # _ \<Rightarrow>
                    if is_cont b1 then Some ((n - 0xC0) * 64 + cont_bits b1, 1) else None
                | _ \<Rightarrow> None)
             else if 0xE0 \<le> n \<and> n \<le> 0xEF then
               (case rest of
                  b1 # b2 # _ \<Rightarrow>
                    (let c = (n - 0xE0) * 4096 + cont_bits b1 * 64 + cont_bits b2
                     in if is_cont b1 \<and> is_cont b2 \<and> 0x800 \<le> c \<and> (sp \<or> \<not> is_surrogate c)
                        then Some (c, 2) else None)
                | _ \<Rightarrow> None)
             else if 0xF0 \<le> n \<and> n \<le> 0xF4 then
               (case rest of
                  b1 # b2 # b3 # _ \<Rightarrow>
                    (let c = (n - 0xF0) * 262144 + cont_bits b1 * 4096 + cont_bits b2 * 64
                               + cont_bits b3
                     in if is_cont b1 \<and> is_cont b2 \<and> is_cont b3 \<and> 0x10000 \<le> c \<and> c < 0x110000
                        then Some (c, 3) else None)
                | _ \<Rightarrow> None)
             else None))"

fun utf8_decode :: "bool \<Rightarrow> bytes \<Rightarrow> ustr option" where
  "utf8_decode sp [] = Some []"
| "utf8_decode sp (b # rest) =
     (case utf8_first sp (b # rest) of
        None \<Rightarrow> None
      | Some (c, k) \<Rightarrow> cons_opt c (utf8_decode sp (drop k rest)))"

text \<open>
  UTF-16 and UTF-32 with the \<^verbatim>\<open>surrogatepass\<close> handler: a surrogate that has no
  partner stays as it is; data that stops inside a code unit, and a UTF-32 unit
  beyond 0x10FFFF, raise.
\<close>

fun utf16_units :: "bool \<Rightarrow> nat list \<Rightarrow> nat list option" where
  "utf16_units le [] = Some []"
| "utf16_units le [x] = None"
| "utf16_units le (x # y # r) =
     cons_opt (if le then x + 256 * y else 256 * x + y) (utf16_units le r)"

fun utf16_join :: "nat list \<Rightarrow> nat list" where
  "utf16_join [] = []"
| "utf16_join [x] = [x]"
| "utf16_join (h # l # r) =
     (if 0xD800 \<le> h \<and> h \<le> 0xDBFF \<and> 0xDC00 \<le> l \<and> l \<le> 0xDFFF
      then (0x10000 + (h - 0xD800) * 1024 + (l - 0xDC00)) # utf16_join r
      else h # utf16_join (l # r))"

definition utf16_decode :: "bool \<Rightarrow> bytes \<Rightarrow> ustr option" where
  "utf16_decode le b = map_option utf16_join (utf16_units le (map of_char b))"

fun utf32_units :: "bool \<Rightarrow> nat list \<Rightarrow> nat list option" where
  "utf32_units le (w # x # y # z # r) =
     (let c = (if le then w + 256 * x + 65536 * y + 16777216 * z
               else 16777216 * w + 65536 * x + 256 * y + z)
      in if c < 0x110000 then cons_opt c (utf32_units le r) else None)"
| "utf32_units le [] = Some []"
| "utf32_units le r = None"

definition utf32_decode :: "bool \<Rightarrow> bytes \<Rightarrow> ustr option" where
  "utf32_decode le b = utf32_units le (map of_char b)"

text \<open>\<^verbatim>\<open>json.detect_encoding\<close>.\<close>

datatype encoding = UTF8 | UTF8_SIG | UTF16 | UTF16_LE | UTF16_BE | UTF32 | UTF32_LE | UTF32_BE

definition detect_encoding :: "bytes \<Rightarrow> encoding" where
  "detect_encoding b =
     (let n = (map of_char b :: nat list)
      in if startswith n [0x00, 0x00, 0xFE, 0xFF] \<or> startswith n [0xFF, 0xFE, 0x00, 0x00] then UTF32
         else if startswith n [0xFE, 0xFF] \<or> startswith n [0xFF, 0xFE] then UTF16
         else if startswith n [0xEF, 0xBB, 0xBF] then UTF8_SIG
         else if 4 \<le> length n then
           (if n ! 0 = 0 then (if n ! 1 \<noteq> 0 then UTF16_BE else UTF32_BE)
            else if n ! 1 = 0 then (if n ! 2 \<noteq> 0 \<or> n ! 3 \<noteq> 0 then UTF16_LE else UTF32_LE)
            else UTF8)
         else if length n = 2 then
           (if n ! 0 = 0 then UTF16_BE else if n ! 1 = 0 then UTF16_LE else UTF8)
         else UTF8)"

text \<open>
  \<^verbatim>\<open>b.decode(detect_encoding(b), "surrogatepass")\<close>. The codecs \<^verbatim>\<open>utf-16\<close> and
  \<^verbatim>\<open>utf-32\<close> read the byte order from the mark and drop it; \<^verbatim>\<open>utf-8-sig\<close> drops
  its mark.
\<close>

definition decode_detected :: "bytes \<Rightarrow> ustr option" where
  "decode_detected b =
     (case detect_encoding b of
        UTF8 \<Rightarrow> utf8_decode True b
      | UTF8_SIG \<Rightarrow> utf8_decode True (drop 3 b)
      | UTF16 \<Rightarrow> utf16_decode ((of_char (b ! 0) :: nat) = 0xFF) (drop 2 b)
      | UTF16_LE \<Rightarrow> utf16_decode True b
      | UTF16_BE \<Rightarrow> utf16_decode False b
      | UTF32 \<Rightarrow> utf32_decode ((of_char (b ! 0) :: nat) = 0xFF) (drop 4 b)
      | UTF32_LE \<Rightarrow> utf32_decode True b
      | UTF32_BE \<Rightarrow> utf32_decode False b)"

section \<open>JSON\<close>

text \<open>
  The values \<^verbatim>\<open>json.loads\<close> builds. A whole number is kept as its value, any other
  number (and \<^verbatim>\<open>NaN\<close>, \<^verbatim>\<open>Infinity\<close>, \<^verbatim>\<open>-Infinity\<close>) as its text; an object is a
  \<^verbatim>\<open>dict\<close>.
\<close>

datatype json =
    JNull
  | JBool bool
  | JInt int
  | JFloat ustr
  | JStr ustr
  | JArr "json list"
  | JObj "(ustr \<times> json) list"

definition ascii :: "string \<Rightarrow> ustr" where
  "ascii s = map of_char s"

fun skip_ws :: "ustr \<Rightarrow> ustr" where
  "skip_ws [] = []"
| "skip_ws (c # cs) = (if c = 32 \<or> c = 9 \<or> c = 10 \<or> c = 13 then skip_ws cs else c # cs)"

definition hex_value :: "nat \<Rightarrow> nat option" where
  "hex_value c =
     (if 48 \<le> c \<and> c \<le> 57 then Some (c - 48)
      else if 97 \<le> c \<and> c \<le> 102 then Some (c - 87)
      else if 65 \<le> c \<and> c \<le> 70 then Some (c - 55)
      else None)"

text \<open>\<^verbatim>\<open>_decode_uXXXX\<close>: the four hexadecimal digits after \<^verbatim>\<open>\u\<close>.\<close>

definition decode_uXXXX :: "ustr \<Rightarrow> nat option" where
  "decode_uXXXX s =
     (case s of
        a # b # c # d # _ \<Rightarrow>
          (case (hex_value a, hex_value b, hex_value c, hex_value d) of
             (Some w, Some x, Some y, Some z) \<Rightarrow> Some (w * 4096 + x * 256 + y * 16 + z)
           | _ \<Rightarrow> None)
      | _ \<Rightarrow> None)"

text \<open>The table \<^verbatim>\<open>BACKSLASH\<close> of the one-letter escapes.\<close>

definition backslash :: "nat \<Rightarrow> nat option" where
  "backslash e =
     (if e = 34 then Some 34 else if e = 92 then Some 92 else if e = 47 then Some 47
      else if e = 98 then Some 8 else if e = 102 then Some 12 else if e = 110 then Some 10
      else if e = 114 then Some 13 else if e = 116 then Some 9 else None)"

definition push :: "nat \<Rightarrow> (ustr \<times> ustr) option \<Rightarrow> (ustr \<times> ustr) option" where
  "push c r = (case r of None \<Rightarrow> None | Some (s, rest) \<Rightarrow> Some (c # s, rest))"

text \<open>
  \<^verbatim>\<open>scanstring\<close> (strict), started after the opening quote: the string and the text
  after its closing quote. A high surrogate escape followed by a low surrogate
  escape is one code point (\<^verbatim>\<open>0x10000 + (((uni - 0xd800) << 10) | (uni2 - 0xdc00))\<close>, the
  two operands of \<^verbatim>\<open>|\<close> having no bit in common). \<open>None\<close> is \<^verbatim>\<open>JSONDecodeError\<close>.
\<close>

function scanstring :: "ustr \<Rightarrow> (ustr \<times> ustr) option" where
  "scanstring [] = None"
| "scanstring (c # cs) =
     (if c = 34 then Some ([], cs)
      else if c = 92 then
        (case cs of
           [] \<Rightarrow> None
         | e # es \<Rightarrow>
            (if e = 117 then
               (case decode_uXXXX es of
                  None \<Rightarrow> None
                | Some uni \<Rightarrow>
                   (if 0xD800 \<le> uni \<and> uni \<le> 0xDBFF \<and> startswith (drop 4 es) [92, 117] then
                      (case decode_uXXXX (drop 6 es) of
                         None \<Rightarrow> None
                       | Some uni2 \<Rightarrow>
                          (if 0xDC00 \<le> uni2 \<and> uni2 \<le> 0xDFFF
                           then push (0x10000 + ((uni - 0xD800) * 1024 + (uni2 - 0xDC00)))
                                  (scanstring (drop 10 es))
                           else push uni (scanstring (drop 4 es))))
                    else push uni (scanstring (drop 4 es))))
             else (case backslash e of
                     None \<Rightarrow> None
                   | Some ch \<Rightarrow> push ch (scanstring es))))
      else if c < 32 then None
      else push c (scanstring cs))"
  by pat_completeness auto
termination
  by (relation "measure length") auto

declare scanstring.simps [simp del]

text \<open>
  \<^verbatim>\<open>NUMBER_RE\<close>, \<^verbatim>\<open>(-?(?:0|[1-9][0-9]*))(\.[0-9]+)?([eE][-+]?[0-9]+)?\<close>: the integer
  part, the fraction and the exponent that match at the start of the text, and the
  rest.
\<close>

definition is_digit :: "nat \<Rightarrow> bool" where
  "is_digit c = (48 \<le> c \<and> c \<le> 57)"

definition match_int :: "ustr \<Rightarrow> (ustr \<times> ustr) option" where
  "match_int s =
     (let sign = (if startswith s [45] then [45] else []);
          t = drop (length sign) s
      in case t of
           [] \<Rightarrow> None
         | d # r \<Rightarrow>
            if d = 48 then Some (sign @ [48], r)
            else if is_digit d then Some (sign @ d # takeWhile is_digit r, dropWhile is_digit r)
            else None)"

definition match_frac :: "ustr \<Rightarrow> ustr \<times> ustr" where
  "match_frac s =
     (case s of
        p # d # r \<Rightarrow>
          if p = 46 \<and> is_digit d then (p # d # takeWhile is_digit r, dropWhile is_digit r)
          else ([], s)
      | _ \<Rightarrow> ([], s))"

definition match_exp :: "ustr \<Rightarrow> ustr \<times> ustr" where
  "match_exp s =
     (case s of
        [] \<Rightarrow> ([], s)
      | e # r \<Rightarrow>
         if e = 101 \<or> e = 69 then
           (let sign = (if startswith r [45] then [45] else if startswith r [43] then [43] else []);
                t = drop (length sign) r
            in case t of
                 [] \<Rightarrow> ([], s)
               | d # u \<Rightarrow>
                  if is_digit d then (e # sign @ d # takeWhile is_digit u, dropWhile is_digit u)
                  else ([], s))
         else ([], s))"

text \<open>\<^verbatim>\<open>int(text)\<close> for an optional minus sign and decimal digits.\<close>

definition nat_of_digits :: "ustr \<Rightarrow> nat" where
  "nat_of_digits ds = foldl (\<lambda>a d. 10 * a + (d - 48)) 0 ds"

definition int_of_text :: "ustr \<Rightarrow> int" where
  "int_of_text s =
     (if startswith s [45] then - int (nat_of_digits (drop 1 s)) else int (nat_of_digits s))"

text \<open>
  What the interpreter that runs the code allows. \<open>recursion_remaining\<close> is the number
  of nested calls still available when \<^verbatim>\<open>json.loads\<close> starts scanning (the recursion
  limit less the depth of the stack): the scanner enters one for every array and object
  it opens, also an empty one, and raises \<^verbatim>\<open>RecursionError\<close> when none is left.
  \<open>int_max_str_digits\<close> is \<^verbatim>\<open>sys.get_int_max_str_digits()\<close>, 4300 unless changed and 0
  for no limit: \<^verbatim>\<open>int(text)\<close> raises \<^verbatim>\<open>ValueError\<close> for a text of more digits (the sign
  not counted), texts of up to 640 digits being always converted.
\<close>

record interpreter =
  recursion_remaining :: nat
  int_max_str_digits :: nat

definition int_too_long :: "nat \<Rightarrow> ustr \<Rightarrow> bool" where
  "int_too_long lim integer =
     (let digits = length (if startswith integer [45] then drop 1 integer else integer)
      in 640 < digits \<and> 0 < lim \<and> lim < digits)"

text \<open>
  The outcome of scanning: a value and the text after it, \<^verbatim>\<open>JSONDecodeError\<close>,
  \<^verbatim>\<open>RecursionError\<close>, the \<^verbatim>\<open>ValueError\<close> of an integer with too many digits, or the
  fuel of the model used up.
\<close>

datatype 'a scan = Scanned 'a ustr | Malformed | TooDeep | TooManyDigits | Exhausted

text \<open>
  \<^verbatim>\<open>scan_once\<close>, \<^verbatim>\<open>JSONArray\<close> and \<^verbatim>\<open>JSONObject\<close>. \<open>scan_array n lim k acc s\<close> reads the
  elements of an array from the start of an element, \<open>acc\<close> holding the elements read;
  \<open>scan_object n lim k acc s\<close> reads the members of an object from behind the opening
  quote of a key. \<open>n\<close> bounds the number of calls, \<open>lim\<close> is the limit on the digits of
  an integer, \<open>k\<close> the number of nested calls still available.
\<close>

fun scan_once :: "nat \<Rightarrow> nat \<Rightarrow> nat \<Rightarrow> ustr \<Rightarrow> json scan"
  and scan_array :: "nat \<Rightarrow> nat \<Rightarrow> nat \<Rightarrow> json list \<Rightarrow> ustr \<Rightarrow> json scan"
  and scan_object :: "nat \<Rightarrow> nat \<Rightarrow> nat \<Rightarrow> (ustr \<times> json) list \<Rightarrow> ustr \<Rightarrow> json scan" where
  "scan_once n lim k s =
     (case n of
        0 \<Rightarrow> Exhausted
      | Suc m \<Rightarrow>
         (case s of
            [] \<Rightarrow> Malformed
          | c # cs \<Rightarrow>
             if c = 34 then
               (case scanstring cs of
                  None \<Rightarrow> Malformed
                | Some (str, rest) \<Rightarrow> Scanned (JStr str) rest)
             else if c = 123 then
               (case k of
                  0 \<Rightarrow> TooDeep
                | Suc j \<Rightarrow>
                   (case skip_ws cs of
                      [] \<Rightarrow> Malformed
                    | d # rest \<Rightarrow>
                       if d = 125 then Scanned (JObj []) rest
                       else if d = 34 then scan_object m lim j [] rest
                       else Malformed))
             else if c = 91 then
               (case k of
                  0 \<Rightarrow> TooDeep
                | Suc j \<Rightarrow>
                   (case skip_ws cs of
                      [] \<Rightarrow> Malformed
                    | d # rest \<Rightarrow>
                       if d = 93 then Scanned (JArr []) rest
                       else scan_array m lim j [] (d # rest)))
             else if startswith s (ascii ''null'') then Scanned JNull (drop 4 s)
             else if startswith s (ascii ''true'') then Scanned (JBool True) (drop 4 s)
             else if startswith s (ascii ''false'') then Scanned (JBool False) (drop 5 s)
             else
               (case match_int s of
                  Some (integer, r0) \<Rightarrow>
                    (case match_frac r0 of
                       (frac, r1) \<Rightarrow>
                         (case match_exp r1 of
                            (ex, r2) \<Rightarrow>
                              if frac \<noteq> [] \<or> ex \<noteq> []
                              then Scanned (JFloat (integer @ frac @ ex)) r2
                              else if int_too_long lim integer then TooManyDigits
                              else Scanned (JInt (int_of_text integer)) r2))
                | None \<Rightarrow>
                    if startswith s (ascii ''NaN'') then
                      Scanned (JFloat (ascii ''NaN'')) (drop 3 s)
                    else if startswith s (ascii ''Infinity'') then
                      Scanned (JFloat (ascii ''Infinity'')) (drop 8 s)
                    else if startswith s (ascii ''-Infinity'') then
                      Scanned (JFloat (ascii ''-Infinity'')) (drop 9 s)
                    else Malformed)))"
| "scan_array n lim k acc s =
     (case n of
        0 \<Rightarrow> Exhausted
      | Suc m \<Rightarrow>
         (case scan_once m lim k s of
            Scanned v rest \<Rightarrow>
              (case skip_ws rest of
                 [] \<Rightarrow> Malformed
               | d # rest' \<Rightarrow>
                  if d = 93 then Scanned (JArr (acc @ [v])) rest'
                  else if d = 44 then scan_array m lim k (acc @ [v]) (skip_ws rest')
                  else Malformed)
          | Malformed \<Rightarrow> Malformed
          | TooDeep \<Rightarrow> TooDeep
          | TooManyDigits \<Rightarrow> TooManyDigits
          | Exhausted \<Rightarrow> Exhausted))"
| "scan_object n lim k acc s =
     (case n of
        0 \<Rightarrow> Exhausted
      | Suc m \<Rightarrow>
         (case scanstring s of
            None \<Rightarrow> Malformed
          | Some (key, rest) \<Rightarrow>
             (case skip_ws rest of
                [] \<Rightarrow> Malformed
              | d # rest1 \<Rightarrow>
                 if d \<noteq> 58 then Malformed
                 else
                   (case scan_once m lim k (skip_ws rest1) of
                      Scanned v rest2 \<Rightarrow>
                        (case skip_ws rest2 of
                           [] \<Rightarrow> Malformed
                         | d2 # rest3 \<Rightarrow>
                            if d2 = 125 then
                              Scanned (JObj (dict_of_pairs (acc @ [(key, v)]))) rest3
                            else if d2 = 44 then
                              (case skip_ws rest3 of
                                 [] \<Rightarrow> Malformed
                               | d3 # rest4 \<Rightarrow>
                                  if d3 = 34 then scan_object m lim k (acc @ [(key, v)]) rest4
                                  else Malformed)
                            else Malformed)
                    | Malformed \<Rightarrow> Malformed
                    | TooDeep \<Rightarrow> TooDeep
                    | TooManyDigits \<Rightarrow> TooManyDigits
                    | Exhausted \<Rightarrow> Exhausted))))"

declare scan_once.simps [simp del] scan_array.simps [simp del] scan_object.simps [simp del]

text \<open>
  \<^verbatim>\<open>JSONDecoder.decode\<close>: white space, one value, white space, the end. Twice the
  length of the text (and two) is enough fuel for every text (\<open>json_decode_fuel\<close>
  below), so \<open>FuelError\<close> is no outcome. \<open>DepthError\<close> is \<^verbatim>\<open>RecursionError\<close> and
  \<open>DigitsError\<close> the \<^verbatim>\<open>ValueError\<close> of \<^verbatim>\<open>int\<close>; \<open>DecodeError\<close> is \<^verbatim>\<open>UnicodeDecodeError\<close>.
\<close>

datatype json_error = JSONDecodeError | DecodeError | DepthError | DigitsError | FuelError

definition json_decode :: "interpreter \<Rightarrow> ustr \<Rightarrow> json_error + json" where
  "json_decode py s =
     (case scan_once (2 * length s + 2) (int_max_str_digits py) (recursion_remaining py)
             (skip_ws s) of
        Scanned v rest \<Rightarrow> if skip_ws rest = [] then Inr v else Inl JSONDecodeError
      | Malformed \<Rightarrow> Inl JSONDecodeError
      | TooDeep \<Rightarrow> Inl DepthError
      | TooManyDigits \<Rightarrow> Inl DigitsError
      | Exhausted \<Rightarrow> Inl FuelError)"

text \<open>\<^verbatim>\<open>json.loads(b)\<close> for bytes.\<close>

definition json_loads :: "interpreter \<Rightarrow> bytes \<Rightarrow> json_error + json" where
  "json_loads py b =
     (case decode_detected b of
        None \<Rightarrow> Inl DecodeError
      | Some s \<Rightarrow> json_decode py s)"

section \<open>CSV\<close>

text \<open>
  \<^verbatim>\<open>s.splitlines()\<close>: the text is cut at every line boundary (\<^verbatim>\<open>\r\n\<close> being one),
  and what follows the last boundary is a line only when it is not empty.
\<close>

definition is_linebreak :: "nat \<Rightarrow> bool" where
  "is_linebreak c =
     (c = 10 \<or> c = 11 \<or> c = 12 \<or> c = 13 \<or> c = 28 \<or> c = 29 \<or> c = 30 \<or> c = 133
      \<or> c = 8232 \<or> c = 8233)"

fun splitlines_from :: "ustr \<Rightarrow> ustr \<Rightarrow> ustr list" where
  "splitlines_from cur [] = (if cur = [] then [] else [cur])"
| "splitlines_from cur [c] =
     (if is_linebreak c then [cur] else [cur @ [c]])"
| "splitlines_from cur (c # d # cs) =
     (if c = 13 \<and> d = 10 then cur # splitlines_from [] cs
      else if is_linebreak c then cur # splitlines_from [] (d # cs)
      else splitlines_from (cur @ [c]) (d # cs))"

definition splitlines :: "ustr \<Rightarrow> ustr list" where
  "splitlines s = splitlines_from [] s"

text \<open>
  The parser of \<^verbatim>\<open>csv.reader\<close> in the \<^verbatim>\<open>excel\<close> dialect (delimiter comma, quote
  character \<^verbatim>\<open>"\<close>, doubled quotes, no escape character, not strict). It holds its
  state, the fields of the record read so far and the field being read. \<open>None\<close> as
  a character is the end of a line.
\<close>

datatype csv_state =
  START_RECORD | START_FIELD | IN_FIELD | IN_QUOTED_FIELD | QUOTE_IN_QUOTED_FIELD | EAT_CRNL

datatype reader = Reader (state: csv_state) (fields: "ustr list") (field: ustr)

definition field_limit :: nat where
  "field_limit = 131072"

definition parse_add_char :: "csv_state \<Rightarrow> reader \<Rightarrow> nat \<Rightarrow> error + reader" where
  "parse_add_char st r c =
     (if field_limit \<le> length (field r) then Inl CsvError
      else Inr (Reader st (fields r) (field r @ [c])))"

definition parse_save_field :: "csv_state \<Rightarrow> reader \<Rightarrow> error + reader" where
  "parse_save_field st r = Inr (Reader st (fields r @ [field r]) [])"

definition is_crnl :: "nat option \<Rightarrow> bool" where
  "is_crnl c = (c = Some 10 \<or> c = Some 13)"

definition after_eol :: "nat option \<Rightarrow> csv_state" where
  "after_eol c = (if c = None then START_RECORD else EAT_CRNL)"

definition start_field :: "reader \<Rightarrow> nat option \<Rightarrow> error + reader" where
  "start_field r c =
     (if is_crnl c \<or> c = None then parse_save_field (after_eol c) r
      else if c = Some 34 then Inr (Reader IN_QUOTED_FIELD (fields r) (field r))
      else if c = Some 44 then parse_save_field START_FIELD r
      else parse_add_char IN_FIELD r (the c))"

definition parse_process_char :: "reader \<Rightarrow> nat option \<Rightarrow> error + reader" where
  "parse_process_char r c =
     (case state r of
        START_RECORD \<Rightarrow>
          if c = None then Inr r
          else if is_crnl c then Inr (Reader EAT_CRNL (fields r) (field r))
          else start_field r c
      | START_FIELD \<Rightarrow> start_field r c
      | IN_FIELD \<Rightarrow>
          if is_crnl c \<or> c = None then parse_save_field (after_eol c) r
          else if c = Some 44 then parse_save_field START_FIELD r
          else parse_add_char IN_FIELD r (the c)
      | IN_QUOTED_FIELD \<Rightarrow>
          if c = None then Inr r
          else if c = Some 34 then Inr (Reader QUOTE_IN_QUOTED_FIELD (fields r) (field r))
          else parse_add_char IN_QUOTED_FIELD r (the c)
      | QUOTE_IN_QUOTED_FIELD \<Rightarrow>
          if c = Some 34 then parse_add_char IN_QUOTED_FIELD r 34
          else if c = Some 44 then parse_save_field START_FIELD r
          else if is_crnl c \<or> c = None then parse_save_field (after_eol c) r
          else parse_add_char IN_FIELD r (the c)
      | EAT_CRNL \<Rightarrow>
          if is_crnl c then Inr r
          else if c = None then Inr (Reader START_RECORD (fields r) (field r))
          else Inl CsvError)"

text \<open>One line: its characters, then the end of the line.\<close>

fun process_line :: "reader \<Rightarrow> ustr \<Rightarrow> error + reader" where
  "process_line r [] = parse_process_char r None"
| "process_line r (c # cs) =
     (case parse_process_char r (Some c) of
        Inl e \<Rightarrow> Inl e
      | Inr r' \<Rightarrow> process_line r' cs)"

text \<open>
  \<^verbatim>\<open>list(csv.reader(lines))\<close>: a record ends with the line that leaves the parser at
  the start of a record; a quoted field that is open at the end of a line goes on in
  the next line; when the lines end inside a record, what was read is the last
  record.
\<close>

fun csv_records :: "reader \<Rightarrow> ustr list \<Rightarrow> error + ustr list list" where
  "csv_records r [] =
     (if field r \<noteq> [] \<or> state r = IN_QUOTED_FIELD then Inr [fields r @ [field r]] else Inr [])"
| "csv_records r (l # ls) =
     (case process_line r l of
        Inl e \<Rightarrow> Inl e
      | Inr r' \<Rightarrow>
         if state r' = START_RECORD then
           (case csv_records (Reader START_RECORD [] []) ls of
              Inl e \<Rightarrow> Inl e
            | Inr rs \<Rightarrow> Inr (fields r' # rs))
         else csv_records r' ls)"

definition csv_reader :: "ustr list \<Rightarrow> error + ustr list list" where
  "csv_reader lines = csv_records (Reader START_RECORD [] []) lines"

text \<open>
  \<^verbatim>\<open>csv.DictReader\<close>: the first record gives the field names; every later record
  that is not empty gives a \<^verbatim>\<open>dict\<close>. The fields beyond the names go, as a list, under
  the key \<^verbatim>\<open>None\<close>; the names beyond the fields get the value \<^verbatim>\<open>None\<close>.
\<close>

datatype csv_val = VStr ustr | VNone | VList "ustr list"

type_synonym csv_row = "(ustr option, csv_val) dict"

definition dict_row :: "ustr list \<Rightarrow> ustr list \<Rightarrow> csv_row" where
  "dict_row fieldnames row =
     (let d = dict_of_pairs (zip (map Some fieldnames) (map VStr row));
          lf = length fieldnames;
          lr = length row
      in if lf < lr then dict_set d None (VList (drop lf row))
         else if lr < lf then foldl (\<lambda>d key. dict_set d (Some key) VNone) d (drop lr fieldnames)
         else d)"

definition DictReader :: "ustr list \<Rightarrow> error + csv_row list" where
  "DictReader lines =
     (case csv_reader lines of
        Inl e \<Rightarrow> Inl e
      | Inr [] \<Rightarrow> Inr []
      | Inr (fieldnames # rows) \<Rightarrow> Inr (map (dict_row fieldnames) (filter (\<lambda>row. row \<noteq> []) rows)))"

section \<open>Writing JSON\<close>

text \<open>
  \<^verbatim>\<open>encode_basestring_ascii\<close>: printable ASCII stays, the quote, the backslash and
  five control characters get their short escapes, every other code point becomes
  \<^verbatim>\<open>\uXXXX\<close>, beyond 0xFFFF as a surrogate pair
  (\<^verbatim>\<open>0xd800 | ((n >> 10) & 0x3ff)\<close> and \<^verbatim>\<open>0xdc00 | (n & 0x3ff)\<close> for
  \<^verbatim>\<open>n = c - 0x10000\<close>).
\<close>

definition hex_char :: "nat \<Rightarrow> nat" where
  "hex_char d = (if d < 10 then 48 + d else 87 + d)"

definition u_escape :: "nat \<Rightarrow> ustr" where
  "u_escape n =
     [92, 117, hex_char (n div 4096 mod 16), hex_char (n div 256 mod 16),
      hex_char (n div 16 mod 16), hex_char (n mod 16)]"

definition escape_char :: "nat \<Rightarrow> ustr" where
  "escape_char c =
     (if c = 34 then [92, 34]
      else if c = 92 then [92, 92]
      else if c = 8 then [92, 98]
      else if c = 12 then [92, 102]
      else if c = 10 then [92, 110]
      else if c = 13 then [92, 114]
      else if c = 9 then [92, 116]
      else if 32 \<le> c \<and> c \<le> 126 then [c]
      else if c < 0x10000 then u_escape c
      else u_escape (0xD800 + (c - 0x10000) div 1024 mod 1024)
             @ u_escape (0xDC00 + (c - 0x10000) mod 1024))"

definition encode_basestring_ascii :: "ustr \<Rightarrow> ustr" where
  "encode_basestring_ascii s = [34] @ concat (map escape_char s) @ [34]"

text \<open>
  \<^verbatim>\<open>json.dumps\<close> on what \<^verbatim>\<open>DictReader\<close> yields: a list of dictionaries whose keys
  are strings or \<^verbatim>\<open>None\<close> (written as the key \<^verbatim>\<open>"null"\<close>) and whose values are
  strings, \<^verbatim>\<open>None\<close> or lists of strings. The separators are \<^verbatim>\<open>", "\<close> and \<^verbatim>\<open>": "\<close>.
\<close>

fun dumps_val :: "csv_val \<Rightarrow> ustr" where
  "dumps_val (VStr s) = encode_basestring_ascii s"
| "dumps_val VNone = ascii ''null''"
| "dumps_val (VList xs) = [91] @ join (ascii '', '') (map encode_basestring_ascii xs) @ [93]"

fun dumps_key :: "ustr option \<Rightarrow> ustr" where
  "dumps_key None = encode_basestring_ascii (ascii ''null'')"
| "dumps_key (Some k) = encode_basestring_ascii k"

definition dumps_item :: "ustr option \<times> csv_val \<Rightarrow> ustr" where
  "dumps_item kv = dumps_key (fst kv) @ ascii '': '' @ dumps_val (snd kv)"

definition dumps_row :: "csv_row \<Rightarrow> ustr" where
  "dumps_row d = [123] @ join (ascii '', '') (map dumps_item d) @ [125]"

definition dumps :: "csv_row list \<Rightarrow> ustr" where
  "dumps rows = [91] @ join (ascii '', '') (map dumps_row rows) @ [93]"

section \<open>The format normaliser\<close>

text \<open>
  \<^verbatim>\<open>_validate_json_content\<close>: only \<^verbatim>\<open>JSONDecodeError\<close> is caught; what else
  \<^verbatim>\<open>json.loads\<close> raises goes through.
\<close>

definition validate_json_content :: "interpreter \<Rightarrow> bytes \<Rightarrow> error + unit" where
  "validate_json_content py content =
     (case json_loads py content of
        Inl JSONDecodeError \<Rightarrow> Inl (HTTPException 400 ''Invalid JSON format: '')
      | Inl DecodeError \<Rightarrow> Inl UnicodeDecodeError
      | Inl DepthError \<Rightarrow> Inl RecursionError
      | Inl DigitsError \<Rightarrow> Inl ValueError
      | Inl FuelError \<Rightarrow> Inl RecursionError
      | Inr v \<Rightarrow> Inr ())"

text \<open>\<^verbatim>\<open>_convert_csv_to_json\<close>.\<close>

definition convert_csv_to_json :: "bytes \<Rightarrow> error + bytes" where
  "convert_csv_to_json csv_content =
     (case utf8_decode False csv_content of
        None \<Rightarrow> Inl (HTTPException 400 ''Invalid CSV encoding'')
      | Some csv_string \<Rightarrow>
         (case DictReader (splitlines csv_string) of
            Inl e \<Rightarrow> Inl e
          | Inr data \<Rightarrow>
             if data = [] then Inl (HTTPException 400 ''CSV file is empty'')
             else (case utf8_encode (dumps data) of
                     None \<Rightarrow> Inl UnicodeEncodeError
                   | Some b \<Rightarrow> Inr b)))"

text \<open>\<^verbatim>\<open>_is_likely_csv\<close>: any exception while looking at the first line means no.\<close>

definition is_likely_csv :: "bytes \<Rightarrow> string \<Rightarrow> bool" where
  "is_likely_csv content fname =
     (if endswith (lower fname) ''.csv'' then True
      else case utf8_decode False (hd (split_char (CHR 0x0A) content)) of
             None \<Rightarrow> False
           | Some first_line \<Rightarrow>
               44 \<in> set first_line \<and> \<not> list_ex (\<lambda>c. c \<in> set first_line) (ascii ''{}[]''))"

text \<open>
  The normalisation steps of \<^verbatim>\<open>_write_content\<close>: convert what looks like CSV, then
  require JSON.
\<close>

definition normalize :: "interpreter \<Rightarrow> bytes \<Rightarrow> string \<Rightarrow> error + bytes" where
  "normalize py content fname =
     (case (if is_likely_csv content fname then convert_csv_to_json content else Inr content) of
        Inl e \<Rightarrow> Inl e
      | Inr final_content \<Rightarrow>
         (case validate_json_content py final_content of
            Inl e \<Rightarrow> Inl e
          | Inr _ \<Rightarrow> Inr final_content))"

section \<open>Dataset providers\<close>

record DatasetLoadResult =
  path :: string
  metadata :: "(string, pyval) dict"
  content :: "bytes option"
  content_type :: string

text \<open>
  An upload: its file name (which a client may leave out) and what \<^verbatim>\<open>read()\<close> gives.
  The HTTP client answers a URL with the status code and the body of the final
  response, or raises.
\<close>

record UploadFile =
  up_filename :: "string option"
  up_read :: bytes

type_synonym http_client = "string \<Rightarrow> error + nat \<times> bytes"

text \<open>\<^verbatim>\<open>not x\<close> for an optional string: \<^verbatim>\<open>None\<close> and the empty string are false.\<close>

definition given :: "string option \<Rightarrow> bool" where
  "given x = (case x of None \<Rightarrow> False | Some s \<Rightarrow> s \<noteq> [])"

text \<open>\<^verbatim>\<open>url.split("/")[-1] or "dataset.json"\<close>.\<close>

definition url_filename :: "string \<Rightarrow> string" where
  "url_filename url =
     (if last (split_char CHR ''/'' url) = [] then ''dataset.json''
      else last (split_char CHR ''/'' url))"

subsection \<open>The local provider\<close>

record LocalDatasetProvider =
  home_dir :: path
  subdir :: string

text \<open>
  \<^verbatim>\<open>LocalDatasetProvider(home_dir=None, subdir="files")\<close>; \<open>env_home\<close> is what
  \<^verbatim>\<open>_home_dir()\<close> reads from the environment.
\<close>

definition LocalDatasetProvider_init ::
  "string \<Rightarrow> path option \<Rightarrow> string option \<Rightarrow> LocalDatasetProvider" where
  "LocalDatasetProvider_init env_home home sub =
     \<lparr> home_dir = (case home of None \<Rightarrow> parse_path env_home | Some h \<Rightarrow> h),
       subdir = (case sub of None \<Rightarrow> ''files'' | Some s \<Rightarrow> s) \<rparr>"

definition namespace_dir :: "LocalDatasetProvider \<Rightarrow> string \<Rightarrow> path" where
  "namespace_dir p namespace =
     path_join (path_join (path_join (home_dir p) ''.docetl'') namespace) (subdir p)"

text \<open>
  \<^verbatim>\<open>_write_content\<close>. A missing file name raises \<^verbatim>\<open>AttributeError\<close> at
  \<^verbatim>\<open>filename.lower()\<close>, after the directory was made.
\<close>

definition write_content ::
  "interpreter \<Rightarrow> LocalDatasetProvider \<Rightarrow> fs \<Rightarrow> string \<Rightarrow> string option \<Rightarrow> bytes
     \<Rightarrow> (error + DatasetLoadResult) \<times> fs" where
  "write_content py p f namespace fname0 data =
     (let target_dir = namespace_dir p namespace
      in case mkdir_parents f target_dir of
           Inl e \<Rightarrow> (Inl (OSError e), f)
         | Inr f1 \<Rightarrow>
            (case fname0 of
               None \<Rightarrow> (Inl AttributeError, f1)
             | Some fname \<Rightarrow>
                (case normalize py data fname of
                   Inl e \<Rightarrow> (Inl e, f1)
                 | Inr final_content \<Rightarrow>
                    (let safe_name = replace fname ''.csv'' ''.json'';
                         file_path = path_join target_dir safe_name
                     in case write_bytes f1 file_path final_content of
                          Inl e \<Rightarrow> (Inl (OSError e), f1)
                        | Inr f2 \<Rightarrow>
                            (Inr \<lparr> path = path_str file_path,
                                   metadata = [(''provider'', PStr ''local''),
                                               (''filename'', PStr safe_name),
                                               (''namespace'', PStr namespace)],
                                   content = Some final_content,
                                   content_type = ''application/json'' \<rparr>, f2)))))"

definition download_url ::
  "interpreter \<Rightarrow> http_client \<Rightarrow> LocalDatasetProvider \<Rightarrow> fs \<Rightarrow> string \<Rightarrow> string
     \<Rightarrow> (error + DatasetLoadResult) \<times> fs" where
  "download_url py http p f namespace url =
     (case http url of
        Inl e \<Rightarrow> (Inl e, f)
      | Inr (status_code, body) \<Rightarrow>
         if status_code \<noteq> 200 then
           (Inl (HTTPException 400 (''Failed to download from URL: '' @ str_of_nat status_code)), f)
         else write_content py p f namespace (Some (url_filename url)) body)"

definition save_upload ::
  "interpreter \<Rightarrow> http_client \<Rightarrow> LocalDatasetProvider \<Rightarrow> fs \<Rightarrow> string \<Rightarrow> UploadFile option \<Rightarrow> string option
     \<Rightarrow> (error + DatasetLoadResult) \<times> fs" where
  "save_upload py http p f namespace file url =
     (if file = None \<and> \<not> given url then
        (Inl (HTTPException 400 ''Either file or url must be provided''), f)
      else if given url then download_url py http p f namespace (the url)
      else write_content py p f namespace (up_filename (the file)) (up_read (the file)))"

definition load_dataset ::
  "interpreter \<Rightarrow> http_client \<Rightarrow> LocalDatasetProvider \<Rightarrow> fs \<Rightarrow> string \<Rightarrow> string option \<Rightarrow> string option
     \<Rightarrow> (error + DatasetLoadResult) \<times> fs" where
  "load_dataset py http p f namespace dataset_url source_version_id =
     (if given dataset_url then
        (if startswith (the dataset_url) ''http://'' \<or> startswith (the dataset_url) ''https://''
         then download_url py http p f namespace (the dataset_url)
         else
           (let file_path = parse_path (the dataset_url)
            in if \<not> exists f file_path then (Inl (HTTPException 404 ''Dataset not found''), f)
               else case read_bytes f file_path of
                      Inl e \<Rightarrow> (Inl (OSError e), f)
                    | Inr data \<Rightarrow>
                        (Inr \<lparr> path = path_str file_path,
                               metadata = [(''provider'', PStr ''local''),
                                           (''filename'', PStr (path_name file_path))],
                               content = Some data,
                               content_type = ''application/json'' \<rparr>, f)))
      else if given source_version_id then
        (Inl (HTTPException 400 ''source_version_id requires the RT dataset provider''), f)
      else (Inl (HTTPException 400 ''dataset_url or source_version_id is required''), f))"

subsection \<open>The RT provider\<close>

record RTDatasetProvider =
  rt_storage_client :: "storage_client option"
  rt_home_dir :: path
  rt_subdir :: string

definition RTDatasetProvider_init ::
  "string \<Rightarrow> storage_client option \<Rightarrow> path option \<Rightarrow> string option \<Rightarrow> RTDatasetProvider" where
  "RTDatasetProvider_init env_home client home sub =
     \<lparr> rt_storage_client = client,
       rt_home_dir = (case home of None \<Rightarrow> parse_path env_home | Some h \<Rightarrow> h),
       rt_subdir = (case sub of None \<Rightarrow> ''rt'' | Some s \<Rightarrow> s) \<rparr>"

definition rt_namespace_dir :: "RTDatasetProvider \<Rightarrow> string \<Rightarrow> path" where
  "rt_namespace_dir p namespace =
     path_join (path_join (path_join (rt_home_dir p) ''.docetl'') namespace) (rt_subdir p)"

definition provider_ensure_storage ::
  "storage_client option \<Rightarrow> storage_env \<Rightarrow> (error + storage_client) \<times> storage_client option" where
  "provider_ensure_storage =
     ensure_storage ''Storage client is disabled; set STORAGE__* to enable RT provider.''"

text \<open>
  The layout resolver (\<^verbatim>\<open>utils.parsing.rt_storage.RTStorageResolver\<close>) is outside the
  repository: \<open>load_layout\<close> gives the bucket and the prefix of an environment,
  \<open>build_unstructured_sv_prefix\<close> the prefix of a source version; both may raise.
\<close>

record layout =
  bucket :: string
  env_prefix :: string

record resolver =
  load_layout :: "string option \<Rightarrow> error + layout"
  build_unstructured_sv_prefix :: "layout \<Rightarrow> string \<Rightarrow> string \<Rightarrow> error + string"

text \<open>\<^verbatim>\<open>_write_bytes\<close>: the bytes go to the file as they are.\<close>

definition rt_write_bytes ::
  "RTDatasetProvider \<Rightarrow> fs \<Rightarrow> string \<Rightarrow> string \<Rightarrow> bytes \<Rightarrow> (string, pyval) dict
     \<Rightarrow> (error + DatasetLoadResult) \<times> fs" where
  "rt_write_bytes p f namespace fname data md =
     (let target_dir = rt_namespace_dir p namespace
      in case mkdir_parents f target_dir of
           Inl e \<Rightarrow> (Inl (OSError e), f)
         | Inr f1 \<Rightarrow>
            (let file_path = path_join target_dir fname
             in case write_bytes f1 file_path data of
                  Inl e \<Rightarrow> (Inl (OSError e), f1)
                | Inr f2 \<Rightarrow>
                    (Inr \<lparr> path = path_str file_path,
                           metadata = dict_union md [(''namespace'', PStr namespace),
                                                     (''provider'', PStr ''rt'')],
                           content = Some data,
                           content_type = ''application/json'' \<rparr>, f2)))"

definition rt_download_http ::
  "http_client \<Rightarrow> RTDatasetProvider \<Rightarrow> fs \<Rightarrow> string \<Rightarrow> string \<Rightarrow> (string, pyval) dict
     \<Rightarrow> (error + DatasetLoadResult) \<times> fs" where
  "rt_download_http http p f namespace url md =
     (case http url of
        Inl e \<Rightarrow> (Inl e, f)
      | Inr (status_code, body) \<Rightarrow>
         if status_code \<noteq> 200 then
           (Inl (HTTPException 400 (''Failed to download dataset: '' @ str_of_nat status_code)), f)
         else rt_write_bytes p f namespace (url_filename url) body md)"

text \<open>
  \<^verbatim>\<open>_fetch_storage_uri\<close>. The functions that need the storage client also return
  the client the provider holds afterwards.
\<close>

definition rt_fetch_storage_uri ::
  "storage_env \<Rightarrow> RTDatasetProvider \<Rightarrow> fs \<Rightarrow> string \<Rightarrow> string \<Rightarrow> (string, pyval) dict
     \<Rightarrow> (error + DatasetLoadResult) \<times> fs \<times> storage_client option" where
  "rt_fetch_storage_uri env p f namespace u md =
     (case provider_ensure_storage (rt_storage_client p) env of
        (Inl e, held) \<Rightarrow> (Inl e, f, held)
      | (Inr storage, held) \<Rightarrow>
         (case get_file_from_uri storage u of
            Inl e \<Rightarrow> (Inl e, f, held)
          | Inr payload \<Rightarrow>
             (case rt_write_bytes p f namespace (url_filename u) payload
                     (dict_union md [(''source_uri'', PStr u)]) of
                (res, f') \<Rightarrow> (res, f', held))))"

text \<open>\<^verbatim>\<open>a or b\<close> on optional strings, and \<^verbatim>\<open>s.rstrip("/")\<close>.\<close>

definition or_else :: "string option \<Rightarrow> string \<Rightarrow> string" where
  "or_else x d = (if given x then the x else d)"

definition rstrip_slash :: "string \<Rightarrow> string" where
  "rstrip_slash s = rev (dropWhile (\<lambda>c. c = CHR ''/'') (rev s))"

definition envelope_uri :: "layout \<Rightarrow> string \<Rightarrow> string" where
  "envelope_uri lay prefix = ''gs://'' @ bucket lay @ ''/'' @ prefix @ ''/envelope/envelope.json''"

definition rt_resolve_source_version ::
  "storage_env \<Rightarrow> (storage_client \<Rightarrow> resolver) \<Rightarrow> RTDatasetProvider \<Rightarrow> fs \<Rightarrow> string \<Rightarrow> string
     \<Rightarrow> string option \<Rightarrow> string option \<Rightarrow> string option
     \<Rightarrow> (error + DatasetLoadResult) \<times> fs \<times> storage_client option" where
  "rt_resolve_source_version env RTStorageResolver p f namespace source_version_id project_id
       env_name canonical_source_id =
     (case provider_ensure_storage (rt_storage_client p) env of
        (Inl e, held) \<Rightarrow> (Inl e, f, held)
      | (Inr storage, held) \<Rightarrow>
         (case load_layout (RTStorageResolver storage) env_name of
            Inl e \<Rightarrow> (Inl e, f, held)
          | Inr lay \<Rightarrow>
             (let cid = or_else canonical_source_id (or_else project_id ''document'')
              in case build_unstructured_sv_prefix (RTStorageResolver storage) lay cid
                        source_version_id of
                   Inl e \<Rightarrow> (Inl e, f, held)
                 | Inr prefix \<Rightarrow>
                     rt_fetch_storage_uri env (p\<lparr>rt_storage_client := held\<rparr>) f namespace
                       (envelope_uri lay prefix)
                       [(''source_version_id'', PStr source_version_id),
                        (''canonical_source_id'', PStr cid),
                        (''env'', PStr (or_else env_name (rstrip_slash (env_prefix lay))))])))"

text \<open>\<^verbatim>\<open>RTDatasetProvider.save_upload\<close>: a local provider on the same directories.\<close>

definition rt_save_upload ::
  "interpreter \<Rightarrow> http_client \<Rightarrow> RTDatasetProvider \<Rightarrow> fs \<Rightarrow> string \<Rightarrow> UploadFile option \<Rightarrow> string option
     \<Rightarrow> (error + DatasetLoadResult) \<times> fs" where
  "rt_save_upload py http p f namespace file url =
     save_upload py http \<lparr> home_dir = rt_home_dir p, subdir = rt_subdir p \<rparr> f namespace file url"

definition rt_load_dataset ::
  "http_client \<Rightarrow> storage_env \<Rightarrow> (storage_client \<Rightarrow> resolver) \<Rightarrow> RTDatasetProvider \<Rightarrow> fs
     \<Rightarrow> string \<Rightarrow> string option \<Rightarrow> string option \<Rightarrow> string option \<Rightarrow> string option
     \<Rightarrow> string option
     \<Rightarrow> (error + DatasetLoadResult) \<times> fs \<times> storage_client option" where
  "rt_load_dataset http env RTStorageResolver p f namespace dataset_url source_version_id
       project_id env_name canonical_source_id =
     (if given dataset_url then
        (if startswith (the dataset_url) ''http://'' \<or> startswith (the dataset_url) ''https://''
         then (case rt_download_http http p f namespace (the dataset_url)
                      [(''dataset_url'', PStr (the dataset_url))] of
                 (res, f') \<Rightarrow> (res, f', rt_storage_client p))
         else if startswith (the dataset_url) ''gs://''
         then rt_fetch_storage_uri env p f namespace (the dataset_url)
                [(''dataset_url'', PStr (the dataset_url))]
         else
           (let file_path = parse_path (the dataset_url)
            in if exists f file_path then
                 (case read_bytes f file_path of
                    Inl e \<Rightarrow> (Inl (OSError e), f, rt_storage_client p)
                  | Inr data \<Rightarrow>
                      (Inr \<lparr> path = path_str file_path,
                             metadata = [(''provider'', PStr ''rt''),
                                         (''dataset_url'', PStr (the dataset_url))],
                             content = Some data,
                             content_type = ''application/json'' \<rparr>, f, rt_storage_client p))
               else (Inl (HTTPException 404 ''Dataset not found''), f, rt_storage_client p)))
      else if given source_version_id then
        rt_resolve_source_version env RTStorageResolver p f namespace (the source_version_id)
          project_id env_name canonical_source_id
      else (Inl (HTTPException 400 ''dataset_url or source_version_id is required''), f,
            rt_storage_client p))"


section \<open>Sample inputs\<close>

text \<open>Concrete inputs at which the theorems below are instantiated.\<close>

definition home0 :: path where
  "home0 = Path ''/'' [''home'', ''u'']"

definition client0 :: storage_client where
  "client0 = \<lparr> get_file_from_uri = (\<lambda>u. Inr ''a,b''), store_file = (\<lambda>q. Inr None),
               bucket_name = ''bkt'' \<rparr>"

definition noon_a :: datetime where
  "noon_a = \<lparr> year = 2026, month = 11, day = 4, hour = 12, minute = 0, second = 7,
              microsecond = 100 \<rparr>"

definition noon_b :: datetime where
  "noon_b = \<lparr> year = 2026, month = 11, day = 4, hour = 12, minute = 0, second = 7,
              microsecond = 900 \<rparr>"

definition noon_c :: datetime where
  "noon_c = \<lparr> year = 2026, month = 11, day = 4, hour = 12, minute = 0, second = 8,
              microsecond = 0 \<rparr>"

text \<open>An interpreter with the default limits and a stack that is not deep.\<close>

definition py0 :: interpreter where
  "py0 = \<lparr> recursion_remaining = 900, int_max_str_digits = 4300 \<rparr>"

text \<open>An interpreter that can enter one array or object and no more.\<close>

definition py_shallow :: interpreter where
  "py_shallow = \<lparr> recursion_remaining = 1, int_max_str_digits = 4300 \<rparr>"

definition csv2 :: bytes where
  "csv2 = ''a,b'' @ [CHR 0x0A] @ ''1,2''"

definition json2 :: bytes where
  "json2 = ''[{\"a\": \"1\", \"b\": \"2\"}]''"

definition http0 :: http_client where
  "http0 url = (if url = ''http://h/d.json'' then Inr (200, ''[1]'') else Inr (404, []))"

definition client1 :: storage_client where
  "client1 = \<lparr> get_file_from_uri = (\<lambda>u. Inr csv2), store_file = (\<lambda>q. Inr None),
               bucket_name = ''bkt'' \<rparr>"

definition resolver0 :: "storage_client \<Rightarrow> resolver" where
  "resolver0 c =
     \<lparr> load_layout = (\<lambda>e. Inr \<lparr> bucket = ''bkt'', env_prefix = ''dev/'' \<rparr>),
       build_unstructured_sv_prefix = (\<lambda>lay cid sv. Inr (env_prefix lay @ cid @ ''/'' @ sv)) \<rparr>"

definition lp0 :: LocalDatasetProvider where
  "lp0 = LocalDatasetProvider_init ''/home/u'' None None"

definition rp0 :: RTDatasetProvider where
  "rp0 = RTDatasetProvider_init ''/home/u'' (Some client1) None None"

definition up0 :: UploadFile where
  "up0 = \<lparr> up_filename = Some ''up.json'', up_read = ''[2]'' \<rparr>"

definition client2 :: storage_client where
  "client2 = \<lparr> get_file_from_uri = (\<lambda>u. Inr u), store_file = (\<lambda>q. Inr None),
               bucket_name = ''bkt'' \<rparr>"

definition rp2 :: RTDatasetProvider where
  "rp2 = RTDatasetProvider_init ''/home/u'' (Some client2) None None"

definition rp_files :: RTDatasetProvider where
  "rp_files = RTDatasetProvider_init ''/home/u'' None None (Some ''files'')"

definition utf16_one :: bytes where
  "utf16_one = [CHR 0xFF, CHR 0xFE, CHR ''1'', CHR 0x00]"

definition quoted_surrogate :: bytes where
  "quoted_surrogate = [CHR 0x22, CHR 0xED, CHR 0xA0, CHR 0x80, CHR 0x22]"

section \<open>The specification's notion of well-formed JSON\<close>

text \<open>
  Written from the specification's words, to be compared with what the code stores: the
  content is a JSON array of objects, or it is JSON Lines, every line that is not blank
  being a JSON document. \<open>is_space\<close> is \<^verbatim>\<open>str.isspace\<close>.
\<close>

definition is_space :: "nat \<Rightarrow> bool" where
  "is_space c =
     ((9 \<le> c \<and> c \<le> 13) \<or> (28 \<le> c \<and> c \<le> 32) \<or> c = 133 \<or> c = 160 \<or> c = 5760
      \<or> (8192 \<le> c \<and> c \<le> 8202) \<or> c = 8232 \<or> c = 8233 \<or> c = 8239 \<or> c = 8287 \<or> c = 12288)"

definition spec_json_array_of_objects :: "interpreter \<Rightarrow> bytes \<Rightarrow> bool" where
  "spec_json_array_of_objects py b =
     (case json_loads py b of
        Inr (JArr xs) \<Rightarrow> list_all (\<lambda>x. case x of JObj _ \<Rightarrow> True | _ \<Rightarrow> False) xs
      | _ \<Rightarrow> False)"

definition spec_json_lines :: "interpreter \<Rightarrow> bytes \<Rightarrow> bool" where
  "spec_json_lines py b =
     (case utf8_decode False b of
        None \<Rightarrow> False
      | Some s \<Rightarrow>
          list_all (\<lambda>l. list_all is_space l \<or> (case json_decode py l of Inr _ \<Rightarrow> True | Inl _ \<Rightarrow> False))
            (splitlines s))"

section \<open>Progress of the scanner\<close>

text \<open>
  A scan makes progress on a text when it did not run out of fuel and, if it read a
  value, left less text than it was given.
\<close>

definition progress :: "ustr \<Rightarrow> json scan \<Rightarrow> bool" where
  "progress s res =
     (case res of Exhausted \<Rightarrow> False | Scanned v r \<Rightarrow> length r < length s | _ \<Rightarrow> True)"
section \<open>Lemmas about paths\<close>

lemma split_char_no_sep: "c \<notin> set p \<Longrightarrow> split_char c p = [p]"
  by (induction p) auto

lemma split_char_append: "c \<notin> set p \<Longrightarrow> split_char c (p @ c # rest) = p # split_char c rest"
  by (induction p) (auto split: list.splits)

lemma split_char_join:
  "ps \<noteq> [] \<Longrightarrow> \<forall>p \<in> set ps. c \<notin> set p \<Longrightarrow> split_char c (join [c] ps) = ps"
  by (induction "[c]" ps rule: join.induct) (auto simp: split_char_no_sep split_char_append)

lemma split_char_nonempty: "split_char c s \<noteq> []"
  by (induction s) (auto split: list.splits)

lemma split_char_parts_no_sep: "p \<in> set (split_char c s) \<Longrightarrow> c \<notin> set p"
  by (induction s arbitrary: p) (auto split: list.splits if_splits)

lemma splitroot_simps:
  "splitroot [] = ([], [])"
  "a \<noteq> CHR ''/'' \<Longrightarrow> splitroot (a # s) = ([], a # s)"
  "splitroot ''/'' = (''/'', [])"
  "b \<noteq> CHR ''/'' \<Longrightarrow> splitroot (CHR ''/'' # b # s) = (''/'', b # s)"
  "splitroot ''//'' = (''//'', [])"
  "c \<noteq> CHR ''/'' \<Longrightarrow> splitroot (CHR ''/'' # CHR ''/'' # c # s) = (''//'', c # s)"
  "splitroot (CHR ''/'' # CHR ''/'' # CHR ''/'' # s) = (''/'', CHR ''/'' # CHR ''/'' # s)"
  by (simp_all add: splitroot_def)

lemma splitroot_root: "fst (splitroot s) \<in> {[], ''/'', ''//''}"
proof (cases s)
  case Nil
  then show ?thesis by (simp add: splitroot_simps)
next
  case s1: (Cons a t)
  show ?thesis
  proof (cases "a = CHR ''/''")
    case False
    then show ?thesis using s1 by (simp add: splitroot_simps)
  next
    case a: True
    show ?thesis
    proof (cases t)
      case Nil
      then show ?thesis using s1 a by (simp add: splitroot_simps)
    next
      case s2: (Cons b u)
      show ?thesis
      proof (cases "b = CHR ''/''")
        case False
        then show ?thesis using s1 a s2 by (simp add: splitroot_simps)
      next
        case b: True
        show ?thesis
        proof (cases u)
          case Nil
          then show ?thesis using s1 a s2 b by (simp add: splitroot_simps)
        next
          case (Cons c v)
          then show ?thesis using s1 a s2 b
            by (cases "c = CHR ''/''") (simp_all add: splitroot_simps)
        qed
      qed
    qed
  qed
qed

lemma wf_parse_path: "wf_path (parse_path s)"
  using splitroot_root[of s]
  by (auto simp: wf_path_def parse_path_def dest: split_char_parts_no_sep split: prod.splits)

lemma wf_path_join: "wf_path p \<Longrightarrow> wf_path (path_join p s)"
  using wf_parse_path[of s] by (auto simp: path_join_def wf_path_def)

lemma filter_parts_id:
  "\<forall>x \<in> set ps. x \<noteq> [] \<and> x \<noteq> ''.'' \<and> CHR ''/'' \<notin> set x \<Longrightarrow>
   filter (\<lambda>x. x \<noteq> [] \<and> x \<noteq> ''.'') (split_char CHR ''/'' (join ''/'' ps)) = ps"
proof (cases ps)
  case Nil
  then show ?thesis by simp
next
  case (Cons a list)
  assume a: "\<forall>x \<in> set ps. x \<noteq> [] \<and> x \<noteq> ''.'' \<and> CHR ''/'' \<notin> set x"
  then have "split_char CHR ''/'' (join ''/'' ps) = ps"
    using Cons split_char_join[of ps "CHR ''/''"] by auto
  then show ?thesis using a by (simp add: filter_id_conv)
qed

lemma join_Cons_nonempty: "x \<noteq> [] \<Longrightarrow> join sep (x # xs) = hd x # tl (join sep (x # xs))"
  by (cases xs; cases x) auto

lemma parse_path_str: "wf_path p \<Longrightarrow> parse_path (path_str p) = p"
proof -
  assume wf: "wf_path p"
  obtain r ps where p: "p = Path r ps" by (cases p)
  have ps: "\<forall>x \<in> set ps. x \<noteq> [] \<and> x \<noteq> ''.'' \<and> CHR ''/'' \<notin> set x"
    using wf p by (simp add: wf_path_def)
  have flt: "filter (\<lambda>x. x \<noteq> [] \<and> x \<noteq> ''.'') (split_char CHR ''/'' (join ''/'' ps)) = ps"
    using ps by (rule filter_parts_id)
  have first: "ps \<noteq> [] \<Longrightarrow> \<exists>a s. join ''/'' ps = a # s \<and> a \<noteq> CHR ''/''"
  proof -
    assume "ps \<noteq> []"
    then obtain x xs where x: "ps = x # xs" by (cases ps) auto
    then have "x \<noteq> []" "CHR ''/'' \<notin> set x" using ps by auto
    then show ?thesis using x join_Cons_nonempty[of x "''/''" xs]
      by (cases x) auto
  qed
  consider "r = []" | "r = ''/''" | "r = ''//''" using wf p by (auto simp: wf_path_def)
  then show ?thesis
  proof cases
    case 1
    show ?thesis
    proof (cases "ps = []")
      case True
      then show ?thesis using 1 p
        by (simp add: path_str_def parse_path_def splitroot_simps)
    next
      case False
      then obtain a s where "join ''/'' ps = a # s" "a \<noteq> CHR ''/''" using first by blast
      then show ?thesis using 1 p False flt
        by (simp add: path_str_def parse_path_def splitroot_simps)
    qed
  next
    case 2
    show ?thesis
    proof (cases "ps = []")
      case True
      then show ?thesis using 2 p
        by (simp add: path_str_def parse_path_def splitroot_simps)
    next
      case False
      then obtain a s where "join ''/'' ps = a # s" "a \<noteq> CHR ''/''" using first by blast
      then show ?thesis using 2 p False flt
        by (simp add: path_str_def parse_path_def splitroot_simps)
    qed
  next
    case 3
    show ?thesis
    proof (cases "ps = []")
      case True
      then show ?thesis using 3 p
        by (simp add: path_str_def parse_path_def splitroot_simps)
    next
      case False
      then obtain a s where "join ''/'' ps = a # s" "a \<noteq> CHR ''/''" using first by blast
      then show ?thesis using 3 p False flt
        by (simp add: path_str_def parse_path_def splitroot_simps)
    qed
  qed
qed

section \<open>Lemmas about the file system and the local sink\<close>

lemma write_text_ok:
  "write_text f p s = (Inr u, f') \<Longrightarrow>
     \<exists>data. utf8_encode s = Some data \<and> lookup f' p = Some (File data)"
  by (auto simp: write_text_def open_w_def lookup_def
      split: sum.splits option.splits if_splits node.splits)

lemma read_bytes_File: "lookup f p = Some (File data) \<Longrightarrow> read_bytes f p = Inr data"
  by (simp add: read_bytes_def)

lemma wf_local_config_file: "wf_path home \<Longrightarrow> wf_path (local_config_file home namespace name)"
  by (simp add: local_config_file_def wf_path_join)

lemma LocalPipelineSink_save_ok:
  assumes "LocalPipelineSink_save home f namespace name yaml_str md = (Inr r, f')"
  shows "psr_path r = path_str (local_config_file home namespace name)"
    and "\<exists>data. utf8_encode yaml_str = Some data \<and>
           lookup f' (local_config_file home namespace name) = Some (File data)"
    and "manifest r =
           [(''pipeline_id'', py_or (md_get (or_empty md) ''pipeline_id'') (PStr name)),
            (''version'', py_or (md_get (or_empty md) ''version'') (PStr ''local'')),
            (''owner'', md_get (or_empty md) ''owner''),
            (''sink'', PStr ''local'')]"
  using assms
  by (auto simp: LocalPipelineSink_save_def local_config_file_def Let_def
      split: sum.splits prod.splits dest: write_text_ok)

section \<open>Lemmas about the clock and the RT sink\<close>

lemma digit_table: "m < 10 \<Longrightarrow> (of_char (''0123456789'' ! m) :: nat) = 48 + m"
proof -
  assume "m < 10"
  then have "m = 0 \<or> m = 1 \<or> m = 2 \<or> m = 3 \<or> m = 4 \<or> m = 5 \<or> m = 6 \<or> m = 7 \<or> m = 8 \<or> m = 9"
    by presburger
  then show ?thesis by (elim disjE) simp_all
qed

lemma of_char_digit_char: "(of_char (digit_char n) :: nat) = 48 + n mod 10"
  by (simp add: digit_char_def digit_table)

lemma digit_char_inj: "digit_char a = digit_char b \<Longrightarrow> a mod 10 = b mod 10"
proof -
  assume "digit_char a = digit_char b"
  then have "(of_char (digit_char a) :: nat) = of_char (digit_char b)" by simp
  then show ?thesis by (simp add: of_char_digit_char)
qed

lemma length_zero_padded [simp]: "length (zero_padded k n) = k"
  by (induction k arbitrary: n) auto

lemma zero_padded_inj: "zero_padded k a = zero_padded k b \<Longrightarrow> a mod 10 ^ k = b mod 10 ^ k"
proof (induction k arbitrary: a b)
  case 0
  then show ?case by simp
next
  case (Suc k)
  from Suc.prems have p: "zero_padded k (a div 10) = zero_padded k (b div 10)"
    and d: "digit_char (a mod 10) = digit_char (b mod 10)"
    by simp_all
  have 1: "(a div 10) mod 10 ^ k = (b div 10) mod 10 ^ k"
    using p by (rule Suc.IH)
  have 2: "a mod 10 = b mod 10"
    using digit_char_inj[OF d] by simp
  have "a mod (10 * 10 ^ k) = 10 * ((a div 10) mod 10 ^ k) + a mod 10"
    by (rule mod_mult2_eq)
  moreover have "b mod (10 * 10 ^ k) = 10 * ((b div 10) mod 10 ^ k) + b mod 10"
    by (rule mod_mult2_eq)
  ultimately have "a mod (10 * 10 ^ k) = b mod (10 * 10 ^ k)"
    using 1 2 by presburger
  then show ?case by simp
qed

lemma strftime_compact_inj:
  assumes "valid_datetime a" "valid_datetime b" "strftime_compact a = strftime_compact b"
  shows "same_second a b"
proof -
  from assms(3) have
    "zero_padded 4 (year a) = zero_padded 4 (year b)"
    "zero_padded 2 (month a) = zero_padded 2 (month b)"
    "zero_padded 2 (day a) = zero_padded 2 (day b)"
    "zero_padded 2 (hour a) = zero_padded 2 (hour b)"
    "zero_padded 2 (minute a) = zero_padded 2 (minute b)"
    "zero_padded 2 (second a) = zero_padded 2 (second b)"
    unfolding strftime_compact_def by (simp_all add: append_eq_append_conv)
  then have "year a mod 10 ^ 4 = year b mod 10 ^ 4" "month a mod 10 ^ 2 = month b mod 10 ^ 2"
    "day a mod 10 ^ 2 = day b mod 10 ^ 2" "hour a mod 10 ^ 2 = hour b mod 10 ^ 2"
    "minute a mod 10 ^ 2 = minute b mod 10 ^ 2" "second a mod 10 ^ 2 = second b mod 10 ^ 2"
    by (auto dest: zero_padded_inj)
  then show ?thesis
    using assms(1,2) by (simp add: valid_datetime_def same_second_def)
qed

lemma length_strftime_compact [simp]: "length (strftime_compact t) = 14"
  by (simp add: strftime_compact_def)

lemma md_get_Cons: "md_get ((k, v) # d) k' = (if k = k' then v else md_get d k')"
  by (simp add: md_get_def)

lemma RTPipelineSink_save_ok:
  assumes "RTPipelineSink_save held env now_version now_saved namespace name yaml_str md
             = (Inr r, held', reqs)"
    and "\<not> truthy (md_get (or_empty md) ''version'')"
  shows "md_get (manifest r) ''version'' = PStr (strftime_compact now_version)
       \<and> (\<exists>q. reqs = [q] \<and> filename q = strftime_compact now_version @ ''.yaml''
           \<and> document_id q =
               ''specs/docetl/'' @ py_str (py_or (md_get (or_empty md) ''pipeline_id'') (PStr name)))"
proof -
  have v: "py_or (md_get (or_empty md) ''version'') (PStr (strftime_compact now_version))
            = PStr (strftime_compact now_version)"
    using assms(2) by (simp add: py_or_def)
  show ?thesis
    using assms(1)
    unfolding RTPipelineSink_save_def Let_def v
    by (auto simp: md_get_Cons split: sum.splits prod.splits option.splits)
qed

section \<open>Facts about the dataset providers\<close>

lemma write_bytes_ok:
  "write_bytes f p d = Inr f' \<Longrightarrow> lookup f' p = Some (File d)"
  by (auto simp: write_bytes_def open_w_def lookup_def
      split: sum.splits option.splits if_splits node.splits)

lemma normalize_ok:
  "normalize py d fname = Inr c \<Longrightarrow> \<exists>v. json_loads py c = Inr v"
  by (auto simp: normalize_def validate_json_content_def
      split: sum.splits if_splits json_error.splits)

lemma wf_namespace_dir: "wf_path (home_dir p) \<Longrightarrow> wf_path (namespace_dir p namespace)"
  by (simp add: namespace_dir_def wf_path_join)

lemma wf_rt_namespace_dir: "wf_path (rt_home_dir p) \<Longrightarrow> wf_path (rt_namespace_dir p namespace)"
  by (simp add: rt_namespace_dir_def wf_path_join)

lemma write_content_ok:
  assumes "write_content py p f namespace fname0 d = (Inr r, f')"
  shows "\<exists>fname c. fname0 = Some fname \<and> normalize py d fname = Inr c \<and> content r = Some c
           \<and> path r = path_str (path_join (namespace_dir p namespace) (replace fname ''.csv'' ''.json''))
           \<and> lookup f' (path_join (namespace_dir p namespace) (replace fname ''.csv'' ''.json''))
                = Some (File c)
           \<and> metadata r = [(''provider'', PStr ''local''),
                            (''filename'', PStr (replace fname ''.csv'' ''.json'')),
                            (''namespace'', PStr namespace)]"
  using assms
  by (auto simp: write_content_def Let_def split: sum.splits option.splits dest: write_bytes_ok)

lemma download_url_ok:
  assumes "download_url py http p f namespace url = (Inr r, f')"
  shows "\<exists>body. http url = Inr (200, body)
           \<and> write_content py p f namespace (Some (url_filename url)) body = (Inr r, f')"
  using assms
  by (auto simp: download_url_def split: sum.splits prod.splits if_splits)

lemma rt_write_bytes_ok:
  assumes "rt_write_bytes p f namespace fname d md = (Inr r, f')"
  shows "content r = Some d
       \<and> path r = path_str (path_join (rt_namespace_dir p namespace) fname)
       \<and> lookup f' (path_join (rt_namespace_dir p namespace) fname) = Some (File d)
       \<and> metadata r = dict_union md [(''namespace'', PStr namespace), (''provider'', PStr ''rt'')]"
  using assms
  by (auto simp: rt_write_bytes_def Let_def split: sum.splits dest: write_bytes_ok)

lemma rt_download_http_ok:
  assumes "rt_download_http http p f namespace url md = (Inr r, f')"
  shows "\<exists>body. http url = Inr (200, body)
           \<and> rt_write_bytes p f namespace (url_filename url) body md = (Inr r, f')"
  using assms
  by (auto simp: rt_download_http_def split: sum.splits prod.splits if_splits)

lemma rt_fetch_storage_uri_ok:
  assumes "rt_fetch_storage_uri env p f namespace u md = (Inr r, f', held)"
  shows "\<exists>storage payload.
           provider_ensure_storage (rt_storage_client p) env = (Inr storage, held)
           \<and> get_file_from_uri storage u = Inr payload
           \<and> rt_write_bytes p f namespace (url_filename u) payload
                (dict_union md [(''source_uri'', PStr u)]) = (Inr r, f')"
  using assms
  by (auto simp: rt_fetch_storage_uri_def split: sum.splits prod.splits)

lemma read_file_at:
  "wf_path p \<Longrightarrow> lookup f p = Some (File d) \<Longrightarrow> read_bytes f (parse_path (path_str p)) = Inr d"
  by (simp add: parse_path_str read_bytes_def)

lemma startswith_iff: "startswith s p \<longleftrightarrow> (\<exists>r. s = p @ r)"
  by (induction s p rule: startswith.induct) auto

lemma split_char_append_last:
  "c \<notin> set p \<Longrightarrow> \<exists>ys. ys \<noteq> [] \<and> split_char c (xs @ c # p) = ys @ [p]"
proof (induction xs)
  case Nil
  then show ?case by (simp add: split_char_no_sep)
next
  case (Cons x xs)
  then obtain ys where ys: "ys \<noteq> []" "split_char c (xs @ c # p) = ys @ [p]" by blast
  then obtain y ys' where y: "ys = y # ys'" by (cases ys) auto
  show ?case
  proof (cases "x = c")
    case True
    then show ?thesis using ys by (intro exI[of _ "[] # ys"]) simp
  next
    case False
    then show ?thesis using ys y by (intro exI[of _ "(x # y) # ys'"]) simp
  qed
qed

lemma url_filename_envelope: "url_filename (envelope_uri lay prefix) = ''envelope.json''"
proof -
  have "envelope_uri lay prefix = (''gs://'' @ bucket lay @ ''/'' @ prefix @ ''/envelope'')
          @ CHR ''/'' # ''envelope.json''"
    by (simp add: envelope_uri_def)
  moreover have "CHR ''/'' \<notin> set ''envelope.json''" by simp
  ultimately obtain ys where "split_char CHR ''/'' (envelope_uri lay prefix) = ys @ [''envelope.json'']"
    using split_char_append_last by metis
  then show ?thesis by (simp add: url_filename_def)
qed

lemma rt_resolve_source_version_ok:
  assumes "rt_resolve_source_version env R p f namespace sv proj en cid = (Inr r, f', held)"
  shows "path r = path_str (path_join (rt_namespace_dir p namespace) ''envelope.json'')
       \<and> (\<exists>d. content r = Some d
              \<and> lookup f' (path_join (rt_namespace_dir p namespace) ''envelope.json'') = Some (File d))"
proof -
  from assms have "\<exists>held0 lay prefix md.
      rt_fetch_storage_uri env (p\<lparr>rt_storage_client := held0\<rparr>) f namespace
        (envelope_uri lay prefix) md = (Inr r, f', held)"
    by (auto simp: rt_resolve_source_version_def Let_def split: sum.splits prod.splits)
  then obtain held0 lay prefix md where
    fetch: "rt_fetch_storage_uri env (p\<lparr>rt_storage_client := held0\<rparr>) f namespace
        (envelope_uri lay prefix) md = (Inr r, f', held)"
    by blast
  define p' where "p' = p\<lparr>rt_storage_client := held0\<rparr>"
  have p': "rt_home_dir p' = rt_home_dir p" "rt_subdir p' = rt_subdir p"
    by (simp_all add: p'_def)
  note fetch = fetch[folded p'_def]
  from rt_fetch_storage_uri_ok[OF fetch] obtain payload md' where
    w: "rt_write_bytes p' f namespace (url_filename (envelope_uri lay prefix)) payload md' = (Inr r, f')"
    by blast
  have nd: "rt_namespace_dir p' namespace = rt_namespace_dir p namespace"
    using p' by (simp add: rt_namespace_dir_def)
  from rt_write_bytes_ok[OF w] show ?thesis
    by (simp add: url_filename_envelope nd)
qed

lemma save_upload_ok:
  assumes "save_upload py http p f namespace file url = (Inr r, f')"
  shows "\<exists>name c v. content r = Some c \<and> json_loads py c = Inr v
           \<and> path r = path_str (path_join (namespace_dir p namespace) name)
           \<and> lookup f' (path_join (namespace_dir p namespace) name) = Some (File c)"
proof -
  from assms obtain fname0 d where "write_content py p f namespace fname0 d = (Inr r, f')"
    by (auto simp: save_upload_def split: if_splits dest: download_url_ok)
  from write_content_ok[OF this] show ?thesis
    by (blast dest: normalize_ok)
qed

lemma load_dataset_ok:
  assumes "load_dataset py http p f namespace dataset_url source_version_id = (Inr r, f')"
  shows "(\<exists>q c. wf_path q \<and> content r = Some c \<and> path r = path_str q \<and> lookup f' q = Some (File c))
       \<or> (\<exists>name c. content r = Some c
             \<and> path r = path_str (path_join (namespace_dir p namespace) name)
             \<and> lookup f' (path_join (namespace_dir p namespace) name) = Some (File c))"
proof (cases "startswith (the dataset_url) ''http://'' \<or> startswith (the dataset_url) ''https://''")
  case True
  then have "download_url py http p f namespace (the dataset_url) = (Inr r, f')"
    using assms by (auto simp: load_dataset_def split: if_splits)
  from download_url_ok[OF this] obtain body where
    "write_content py p f namespace (Some (url_filename (the dataset_url))) body = (Inr r, f')"
    by blast
  from write_content_ok[OF this] show ?thesis by blast
next
  case False
  then have "content r = Some (case read_bytes f (parse_path (the dataset_url)) of Inr d \<Rightarrow> d)
     \<and> path r = path_str (parse_path (the dataset_url)) \<and> f' = f
     \<and> (\<exists>d. read_bytes f (parse_path (the dataset_url)) = Inr d)"
    using assms by (auto simp: load_dataset_def Let_def split: if_splits sum.splits)
  then show ?thesis
    using wf_parse_path[of "the dataset_url"]
    by (auto simp: read_bytes_def split: option.splits node.splits)
qed

lemma load_dataset_http_ok:
  assumes "load_dataset py http p f namespace dataset_url source_version_id = (Inr r, f')"
    and "given dataset_url"
    and "startswith (the dataset_url) ''http://'' \<or> startswith (the dataset_url) ''https://''"
  shows "\<exists>c v. content r = Some c \<and> json_loads py c = Inr v"
proof -
  have "download_url py http p f namespace (the dataset_url) = (Inr r, f')"
    using assms by (auto simp: load_dataset_def split: if_splits)
  from download_url_ok[OF this] obtain body where
    "write_content py p f namespace (Some (url_filename (the dataset_url))) body = (Inr r, f')"
    by blast
  from write_content_ok[OF this] show ?thesis by (blast dest: normalize_ok)
qed

lemma rt_load_dataset_ok:
  assumes "rt_load_dataset http env R p f namespace dataset_url source_version_id project_id
             env_name canonical_source_id = (Inr r, f', held)"
  shows "(\<exists>q c. wf_path q \<and> content r = Some c \<and> path r = path_str q \<and> lookup f' q = Some (File c))
       \<or> (\<exists>name c. content r = Some c
             \<and> path r = path_str (path_join (rt_namespace_dir p namespace) name)
             \<and> lookup f' (path_join (rt_namespace_dir p namespace) name) = Some (File c))"
proof -
  consider (http) md where "rt_download_http http p f namespace (the dataset_url) md = (Inr r, f')"
    | (gs) md where "rt_fetch_storage_uri env p f namespace (the dataset_url) md = (Inr r, f', held)"
    | (localpath) "content r = Some (case read_bytes f (parse_path (the dataset_url)) of Inr d \<Rightarrow> d)"
        "path r = path_str (parse_path (the dataset_url))" "f' = f"
        "\<exists>d. read_bytes f (parse_path (the dataset_url)) = Inr d"
    | (sv) "rt_resolve_source_version env R p f namespace (the source_version_id) project_id env_name
              canonical_source_id = (Inr r, f', held)"
    using assms
    by (auto simp: rt_load_dataset_def Let_def split: if_splits sum.splits prod.splits)
  then show ?thesis
  proof cases
    case http
    from rt_download_http_ok[OF http] obtain body where
      "rt_write_bytes p f namespace (url_filename (the dataset_url)) body md = (Inr r, f')" by blast
    from rt_write_bytes_ok[OF this] show ?thesis by blast
  next
    case gs
    from rt_fetch_storage_uri_ok[OF gs] obtain payload md' where
      "rt_write_bytes p f namespace (url_filename (the dataset_url)) payload md' = (Inr r, f')" by blast
    from rt_write_bytes_ok[OF this] show ?thesis by blast
  next
    case localpath
    then show ?thesis
      using wf_parse_path[of "the dataset_url"]
      by (auto simp: read_bytes_def split: option.splits node.splits)
  next
    case sv
    from rt_resolve_source_version_ok[OF sv] show ?thesis by blast
  qed
qed

lemma utf8_first_strict: "utf8_first False bs = Some x \<Longrightarrow> utf8_first True bs = Some x"
  by (auto simp: utf8_first_def Let_def split: list.splits if_splits)

lemma utf8_decode_strict: "utf8_decode False bs = Some s \<Longrightarrow> utf8_decode True bs = Some s"
proof (induction False bs arbitrary: s rule: utf8_decode.induct)
  case 1
  then show ?case by simp
next
  case (2 b rest)
  from "2.prems" obtain c k t where
    f: "utf8_first False (b # rest) = Some (c, k)" and t: "utf8_decode False (drop k rest) = Some t"
    and s: "s = c # t"
    by (auto simp: cons_opt_def split: option.splits)
  from "2.hyps"[OF f refl t] utf8_first_strict[OF f] s show ?case
    by (simp add: cons_opt_def)
qed

section \<open>The fuel of the scanner is enough\<close>

lemma length_skip_ws: "length (skip_ws s) \<le> length s"
  by (induction s) auto

lemma skip_ws_Cons: "skip_ws s = d # r \<Longrightarrow> length r < length s"
  using length_skip_ws[of s] by simp

lemma push_Some: "push c x = Some (str, rest) \<Longrightarrow> \<exists>t. x = Some (t, rest)"
  by (auto simp: push_def split: option.splits)

lemma scanstring_unfold:
  assumes "scanstring (c # cs) = Some (str, rest)"
  shows "rest = cs \<or> (\<exists>u t. length u \<le> length cs \<and> scanstring u = Some (t, rest))"
proof -
  have d: "\<And>k t. scanstring (drop k cs) = Some (t, rest) \<Longrightarrow> ?thesis"
    by (rule disjI2, rule exI, rule exI, rule conjI[rotated], assumption) simp
  have e: "\<And>k t e es. cs = e # es \<Longrightarrow> scanstring (drop k es) = Some (t, rest) \<Longrightarrow> ?thesis"
    by (rule disjI2, rule exI, rule exI, rule conjI[rotated], assumption) simp
  have e0: "\<And>t e es. cs = e # es \<Longrightarrow> scanstring es = Some (t, rest) \<Longrightarrow> ?thesis"
    using e[where k=0] by simp
  have d0: "\<And>t. scanstring cs = Some (t, rest) \<Longrightarrow> ?thesis"
    using d[where k=0] by simp
  from assms show ?thesis
    apply (subst (asm) scanstring.simps)
    apply (auto split: if_splits list.splits option.splits dest!: push_Some
                intro: d e e0 d0)
    done
qed

lemma scanstring_length: "scanstring s = Some (str, rest) \<Longrightarrow> length rest < length s"
proof (induction "length s" arbitrary: s str rest rule: less_induct)
  case less
  show ?case
  proof (cases s)
    case Nil
    then show ?thesis using less.prems by (simp add: scanstring.simps)
  next
    case (Cons c cs)
    from scanstring_unfold[OF less.prems[unfolded Cons]]
    show ?thesis
    proof
      assume "rest = cs" then show ?thesis using Cons by simp
    next
      assume "\<exists>u t. length u \<le> length cs \<and> scanstring u = Some (t, rest)"
      then obtain u t where u: "length u \<le> length cs" "scanstring u = Some (t, rest)" by blast
      then have "length u < length s" using Cons by simp
      from less.hyps[OF this u(2)] u(1) Cons show ?thesis by simp
    qed
  qed
qed

lemma drop_Cons_length: "drop n s = d # r \<Longrightarrow> length r < length s"
proof -
  assume a: "drop n s = d # r"
  have "length (drop n s) \<le> length s" by simp
  then show ?thesis unfolding a by simp
qed

lemma dropWhile_length_less: "length r < n \<Longrightarrow> length (dropWhile P r) < n"
  using length_dropWhile_le[of P r] by simp

lemma match_int_length: "match_int s = Some (i, r0) \<Longrightarrow> length r0 < length s"
  by (auto simp: match_int_def Let_def split: list.splits if_splits
      dest!: drop_Cons_length intro: dropWhile_length_less)

lemma match_frac_length: "match_frac s = (f, r) \<Longrightarrow> length r \<le> length s"
  using length_dropWhile_le[of is_digit]
  by (auto simp: match_frac_def le_SucI split: list.splits if_splits)

lemma match_exp_length: "match_exp s = (f, r) \<Longrightarrow> length r \<le> length s"
proof -
  have "\<And>n t d u. drop n t = d # u \<Longrightarrow> length (dropWhile is_digit u) \<le> Suc (length t)"
    using length_dropWhile_le[of is_digit] drop_Cons_length
    by (metis le_SucI less_imp_le_nat order_trans)
  moreover have "\<And>u. length (dropWhile is_digit u) \<le> Suc (Suc (length u))"
    using length_dropWhile_le[of is_digit] by (simp add: le_SucI)
  ultimately show "match_exp s = (f, r) \<Longrightarrow> length r \<le> length s"
    by (auto simp: match_exp_def Let_def split: list.splits if_splits)
qed

lemma scan_number_length:
  assumes "match_int s = Some (i, r0)" "match_frac r0 = (f, r1)" "match_exp r1 = (e, r2)"
  shows "length r2 < length s"
  using match_int_length[OF assms(1)] match_frac_length[OF assms(2)] match_exp_length[OF assms(3)]
  by simp

lemma progress_mono: "progress r x \<Longrightarrow> length r \<le> length s \<Longrightarrow> progress s x"
  by (cases x) (simp_all add: progress_def)

lemma scan_once_step:
  assumes arr: "\<And>s acc j. 2 * length s + 1 < m \<Longrightarrow> progress s (scan_array m lim j acc s)"
    and obj: "\<And>s acc j. 2 * length s < m \<Longrightarrow> progress s (scan_object m lim j acc s)"
    and n: "2 * length s < Suc m"
  shows "progress s (scan_once (Suc m) lim k s)"
proof (cases s)
  case Nil
  then show ?thesis by (simp add: scan_once.simps progress_def)
next
  case (Cons c cs)
  consider (str) "c = 34" | (obj) "c = 123" | (arr) "c = 91" | (other) "c \<noteq> 34" "c \<noteq> 123" "c \<noteq> 91"
    by blast
  then show ?thesis
  proof cases
    case str
    then show ?thesis using Cons
      by (auto simp: scan_once.simps progress_def split: option.splits dest: scanstring_length)
  next
    case obj
    show ?thesis
    proof (cases "skip_ws cs")
      case Nil
      then show ?thesis using Cons \<open>c = 123\<close>
        by (simp add: scan_once.simps progress_def split: nat.splits)
    next
      case (Cons d rest)
      have l: "length rest < length cs" using skip_ws_Cons[OF Cons] .
      have p: "progress rest (scan_object m lim j [] rest)" for j
        using l n \<open>s = c # cs\<close> by (intro assms(2)) simp
      have "progress s (scan_object m lim j [] rest)" for j
        using progress_mono[OF p, of s] l \<open>s = c # cs\<close> by simp
      then show ?thesis using Cons \<open>s = c # cs\<close> \<open>c = 123\<close> l
        by (simp add: scan_once.simps progress_def split: nat.splits)
    qed
  next
    case arr
    show ?thesis
    proof (cases "skip_ws cs")
      case Nil
      then show ?thesis using Cons \<open>c = 91\<close>
        by (simp add: scan_once.simps progress_def split: nat.splits)
    next
      case (Cons d rest)
      have l: "length rest < length cs" using skip_ws_Cons[OF Cons] .
      have p: "progress (d # rest) (scan_array m lim j [] (d # rest))" for j
        using l n \<open>s = c # cs\<close> by (intro assms(1)) simp
      have "progress s (scan_array m lim j [] (d # rest))" for j
        using progress_mono[OF p, of s] l \<open>s = c # cs\<close> by simp
      then show ?thesis using Cons \<open>s = c # cs\<close> \<open>c = 91\<close> l
        by (simp add: scan_once.simps progress_def split: nat.splits)
    qed
  next
    case other
    then show ?thesis using Cons
      by (auto simp: scan_once.simps progress_def split: option.splits prod.splits
          dest: scan_number_length)
  qed
qed

lemma scan_array_step:
  assumes once: "\<And>s j. 2 * length s < m \<Longrightarrow> progress s (scan_once m lim j s)"
    and arr: "\<And>s acc j. 2 * length s + 1 < m \<Longrightarrow> progress s (scan_array m lim j acc s)"
    and n: "2 * length s + 1 < Suc m"
  shows "progress s (scan_array (Suc m) lim k acc s)"
proof -
  have p: "progress s (scan_once m lim k s)" using n by (intro once) simp
  show ?thesis
  proof (cases "scan_once m lim k s")
    case (Scanned v rest)
    then have l: "length rest < length s" using p by (simp add: progress_def)
    show ?thesis
    proof (cases "skip_ws rest")
      case Nil
      then show ?thesis using Scanned by (simp add: scan_array.simps progress_def)
    next
      case (Cons d rest')
      have l': "length rest' < length rest" using skip_ws_Cons[OF Cons] .
      have q: "progress (skip_ws rest') (scan_array m lim k (acc @ [v]) (skip_ws rest'))"
        using l l' n length_skip_ws[of rest'] by (intro arr) simp
      have "progress s (scan_array m lim k (acc @ [v]) (skip_ws rest'))"
        using progress_mono[OF q, of s] l l' length_skip_ws[of rest'] by simp
      then show ?thesis using Scanned Cons l l' by (simp add: scan_array.simps progress_def)
    qed
  next
    case Malformed
    then show ?thesis by (simp add: scan_array.simps progress_def)
  next
    case TooDeep
    then show ?thesis by (simp add: scan_array.simps progress_def)
  next
    case TooManyDigits
    then show ?thesis by (simp add: scan_array.simps progress_def)
  next
    case Exhausted
    then show ?thesis using p by (simp add: progress_def)
  qed
qed

lemma scan_object_step:
  assumes once: "\<And>s j. 2 * length s < m \<Longrightarrow> progress s (scan_once m lim j s)"
    and obj: "\<And>s acc j. 2 * length s < m \<Longrightarrow> progress s (scan_object m lim j acc s)"
    and n: "2 * length s < Suc m"
  shows "progress s (scan_object (Suc m) lim k acc s)"
proof (cases "scanstring s")
  case None
  then show ?thesis by (simp add: scan_object.simps progress_def)
next
  case (Some a)
  then obtain key rest where kr: "scanstring s = Some (key, rest)" by (cases a) auto
  have l0: "length rest < length s" using scanstring_length[OF kr] .
  show ?thesis
  proof (cases "skip_ws rest")
    case Nil
    then show ?thesis using kr by (simp add: scan_object.simps progress_def)
  next
    case (Cons d rest1)
    have l1: "length rest1 < length rest" using skip_ws_Cons[OF Cons] .
    have l2: "length (skip_ws rest1) \<le> length rest1" by (rule length_skip_ws)
    have p: "progress (skip_ws rest1) (scan_once m lim k (skip_ws rest1))"
      using l0 l1 l2 n by (intro once) simp
    show ?thesis
    proof (cases "d = 58")
      case False
      then show ?thesis using kr Cons by (simp add: scan_object.simps progress_def)
    next
      case True
      show ?thesis
      proof (cases "scan_once m lim k (skip_ws rest1)")
        case (Scanned v rest2)
        then have l3: "length rest2 < length (skip_ws rest1)" using p by (simp add: progress_def)
        show ?thesis
        proof (cases "skip_ws rest2")
          case Nil
          then show ?thesis using kr Cons True Scanned
            by (simp add: scan_object.simps progress_def)
        next
          case c2: (Cons d2 rest3)
          have l4: "length rest3 < length rest2" using skip_ws_Cons[OF c2] .
          show ?thesis
          proof (cases "skip_ws rest3")
            case Nil
            then show ?thesis using kr Cons True Scanned c2 l0 l1 l2 l3 l4
              by (simp add: scan_object.simps progress_def)
          next
            case c3: (Cons d3 rest4)
            have l5: "length rest4 < length rest3" using skip_ws_Cons[OF c3] .
            have q: "progress rest4 (scan_object m lim k (acc @ [(key, v)]) rest4)"
              using l0 l1 l2 l3 l4 l5 n by (intro obj) simp
            have "progress s (scan_object m lim k (acc @ [(key, v)]) rest4)"
              using progress_mono[OF q, of s] l0 l1 l2 l3 l4 l5 by simp
            then show ?thesis using kr Cons True Scanned c2 c3 l0 l1 l2 l3 l4
              by (simp add: scan_object.simps progress_def)
          qed
        qed
      next
        case Malformed
        then show ?thesis using kr Cons True by (simp add: scan_object.simps progress_def)
      next
        case TooDeep
        then show ?thesis using kr Cons True by (simp add: scan_object.simps progress_def)
      next
        case TooManyDigits
        then show ?thesis using kr Cons True by (simp add: scan_object.simps progress_def)
      next
        case Exhausted
        then show ?thesis using p by (simp add: progress_def)
      qed
    qed
  qed
qed

lemma scan_fuel:
  "(2 * length s < n \<longrightarrow> progress s (scan_once n lim k s))
   \<and> (2 * length s + 1 < n \<longrightarrow> progress s (scan_array n lim k acc s))
   \<and> (2 * length s < n \<longrightarrow> progress s (scan_object n lim k acc' s))"
proof (induction n arbitrary: s k acc acc')
  case 0
  then show ?case by simp
next
  case (Suc m)
  have once: "\<And>s j. 2 * length s < m \<Longrightarrow> progress s (scan_once m lim j s)"
    and arr: "\<And>s acc j. 2 * length s + 1 < m \<Longrightarrow> progress s (scan_array m lim j acc s)"
    and obj: "\<And>s acc j. 2 * length s < m \<Longrightarrow> progress s (scan_object m lim j acc s)"
    using Suc.IH by blast+
  show ?case
    using scan_once_step[OF arr obj] scan_array_step[OF once arr] scan_object_step[OF once obj]
    by blast
qed

lemma json_decode_fuel: "json_decode py s \<noteq> Inl FuelError"
proof -
  have "2 * length (skip_ws s) < 2 * length s + 2" using length_skip_ws[of s] by simp
  then have "progress (skip_ws s)
     (scan_once (2 * length s + 2) (int_max_str_digits py) (recursion_remaining py) (skip_ws s))"
    using scan_fuel by blast
  then show ?thesis
    by (auto simp: json_decode_def progress_def split: scan.splits)
qed

lemma json_loads_fuel: "json_loads py b \<noteq> Inl FuelError"
  by (simp add: json_loads_def json_decode_fuel split: option.splits)

lemma strftime_compact_same_second: "same_second a b \<Longrightarrow> strftime_compact a = strftime_compact b"
  by (simp add: same_second_def strftime_compact_def)

section \<open>Evaluation\<close>

text \<open>The equations that evaluate the definitions at a concrete input.\<close>

lemmas ev = is_cont_def cont_bits_def is_surrogate_def cons_opt_def utf8_first_def
  utf16_decode_def utf32_decode_def detect_encoding_def decode_detected_def ascii_def
  hex_value_def decode_uXXXX_def backslash_def push_def scanstring.simps is_digit_def
  match_int_def match_frac_def match_exp_def nat_of_digits_def int_of_text_def
  json_decode_def json_loads_def dict_of_pairs_def dict_union_def Let_def
  scan_once.simps scan_array.simps scan_object.simps
  is_linebreak_def splitlines_def field_limit_def parse_add_char_def parse_save_field_def
  is_crnl_def after_eol_def start_field_def parse_process_char_def csv_reader_def
  dict_row_def DictReader_def hex_char_def u_escape_def escape_char_def
  encode_basestring_ascii_def dumps_item_def dumps_row_def dumps_def
  validate_json_content_def convert_csv_to_json_def is_likely_csv_def normalize_def
  utf8_encode_char_def endswith_def lower_def lower_char_def
  splitroot_def parse_path_def path_join_def path_str_def path_name_def parent_def
  lookup_def exists_def os_mkdir_def is_dir_def mkdir_parents.simps open_w_def write_bytes_def
  write_text_def read_bytes_def or_empty_def md_get_def py_or_def
  given_def url_filename_def LocalDatasetProvider_init_def namespace_dir_def write_content_def
  download_url_def save_upload_def load_dataset_def RTDatasetProvider_init_def
  rt_namespace_dir_def provider_ensure_storage_def ensure_storage_def rt_write_bytes_def
  rt_download_http_def rt_fetch_storage_uri_def or_else_def rstrip_slash_def envelope_uri_def
  rt_resolve_source_version_def rt_save_upload_def rt_load_dataset_def char_of_eq_iff
  py0_def py_shallow_def int_too_long_def csv2_def json2_def http0_def client1_def resolver0_def lp0_def rp0_def up0_def home0_def
  is_space_def spec_json_array_of_objects_def spec_json_lines_def client2_def rp2_def rp_files_def utf16_one_def quoted_surrogate_def wf_path_def

section \<open>The claims\<close>

subsection \<open>C1: what a successful resolution leaves on disk\<close>

text \<open>
  Claim C1 says that after every successful \<^verbatim>\<open>save_upload\<close> or \<^verbatim>\<open>load_dataset\<close> of either
  provider the file at the returned path holds well-formed JSON, a JSON array of objects
  or JSON Lines. The RT provider's \<^verbatim>\<open>_write_bytes\<close> stores the fetched bytes as they are:
  loading \<^verbatim>\<open>gs://bkt/x.csv\<close> succeeds and its content is the CSV text, which is neither.
\<close>

theorem C1_counterexample:
  "map_sum id content
     (fst (rt_load_dataset http0 ConfigDisabled resolver0 rp0 Map.empty ''ns''
             (Some ''gs://bkt/x.csv'') None None None None))
   = Inr (Some csv2)
   \<and> \<not> spec_json_array_of_objects py0 csv2 \<and> \<not> spec_json_lines py0 csv2"
  by (simp add: ev)

text \<open>
  C1, amended: after every successful \<^verbatim>\<open>save_upload\<close> or \<^verbatim>\<open>load_dataset\<close> of either provider
  (the home directories being absolute paths) the file at the returned path exists and
  holds exactly the returned content; and for \<^verbatim>\<open>save_upload\<close> of either provider and for the
  local provider's \<^verbatim>\<open>load_dataset\<close> of an http(s) URL that content is accepted by
  \<^verbatim>\<open>json.loads\<close> (it is a JSON document, of any shape).
\<close>

theorem C1_materialized_content:
  assumes "wf_path (home_dir lp)" and "wf_path (rt_home_dir rp)"
    and "save_upload py http lp f namespace file url = (Inr r, f')
       \<or> load_dataset py http lp f namespace dataset_url source_version_id = (Inr r, f')
       \<or> rt_save_upload py http rp f namespace file url = (Inr r, f')
       \<or> (\<exists>held. rt_load_dataset http env R rp f namespace dataset_url source_version_id project_id
                    env_name canonical_source_id = (Inr r, f', held))"
  shows "\<exists>c. content r = Some c \<and> read_bytes f' (parse_path (path r)) = Inr c
           \<and> (save_upload py http lp f namespace file url = (Inr r, f')
               \<or> rt_save_upload py http rp f namespace file url = (Inr r, f')
               \<or> (load_dataset py http lp f namespace dataset_url source_version_id = (Inr r, f')
                    \<and> given dataset_url
                    \<and> (startswith (the dataset_url) ''http://''
                         \<or> startswith (the dataset_url) ''https://''))
              \<longrightarrow> (\<exists>v. json_loads py c = Inr v))"
proof -
  have wfl: "\<And>name. wf_path (path_join (namespace_dir lp namespace) name)"
    using assms(1) by (simp add: wf_namespace_dir wf_path_join)
  have wfr: "\<And>name. wf_path (path_join (rt_namespace_dir rp namespace) name)"
    using assms(2) by (simp add: wf_rt_namespace_dir wf_path_join)
  have wfr': "\<And>name. wf_path (path_join
                 (namespace_dir \<lparr>home_dir = rt_home_dir rp, subdir = rt_subdir rp\<rparr> namespace) name)"
    using assms(2) by (simp add: wf_namespace_dir wf_path_join)
  have mat: "\<exists>c. content r = Some c \<and> read_bytes f' (parse_path (path r)) = Inr c"
    using assms(3)
  proof (elim disjE exE)
    assume "save_upload py http lp f namespace file url = (Inr r, f')"
    from save_upload_ok[OF this] show ?thesis using wfl by (auto simp: read_file_at)
  next
    assume "load_dataset py http lp f namespace dataset_url source_version_id = (Inr r, f')"
    from load_dataset_ok[OF this] show ?thesis using wfl by (auto simp: read_file_at)
  next
    assume "rt_save_upload py http rp f namespace file url = (Inr r, f')"
    then have "save_upload py http \<lparr>home_dir = rt_home_dir rp, subdir = rt_subdir rp\<rparr> f namespace
                 file url = (Inr r, f')"
      by (simp add: rt_save_upload_def)
    from save_upload_ok[OF this] show ?thesis using wfr' by (auto simp: read_file_at)
  next
    fix held
    assume "rt_load_dataset http env R rp f namespace dataset_url source_version_id project_id
              env_name canonical_source_id = (Inr r, f', held)"
    from rt_load_dataset_ok[OF this] show ?thesis using wfr by (auto simp: read_file_at)
  qed
  then obtain c where c: "content r = Some c" "read_bytes f' (parse_path (path r)) = Inr c"
    by blast
  have "\<exists>v. json_loads py c = Inr v"
    if "save_upload py http lp f namespace file url = (Inr r, f')
        \<or> rt_save_upload py http rp f namespace file url = (Inr r, f')
        \<or> (load_dataset py http lp f namespace dataset_url source_version_id = (Inr r, f')
             \<and> given dataset_url
             \<and> (startswith (the dataset_url) ''http://'' \<or> startswith (the dataset_url) ''https://''))"
  proof -
    from that consider
      (a) "save_upload py http lp f namespace file url = (Inr r, f')"
      | (b) "rt_save_upload py http rp f namespace file url = (Inr r, f')"
      | (c) "load_dataset py http lp f namespace dataset_url source_version_id = (Inr r, f')"
          "given dataset_url"
          "startswith (the dataset_url) ''http://'' \<or> startswith (the dataset_url) ''https://''"
      by blast
    then show ?thesis
    proof cases
      case a
      from save_upload_ok[OF a] show ?thesis using c by auto
    next
      case b
      then have "save_upload py http \<lparr>home_dir = rt_home_dir rp, subdir = rt_subdir rp\<rparr> f namespace
                   file url = (Inr r, f')"
        by (simp add: rt_save_upload_def)
      from save_upload_ok[OF this] show ?thesis using c by auto
    next
      case c
      from load_dataset_http_ok[OF c] show ?thesis using \<open>content r = Some c\<close> by auto
    qed
  qed
  then show ?thesis using c by blast
qed

theorem C1_witness:
  "wf_path (home_dir lp0) \<and> wf_path (rt_home_dir rp0)
   \<and> read_bytes (snd (save_upload py0 http0 lp0 Map.empty ''ns'' (Some up0) None))
        (parse_path ''/home/u/.docetl/ns/files/up.json'') = Inr ''[2]''
   \<and> json_loads py0 ''[2]'' = Inr (JArr [JInt 2])"
proof -
  let ?X = "save_upload py0 http0 lp0 Map.empty ''ns'' (Some up0) None"
  let ?r = "\<lparr> path = ''/home/u/.docetl/ns/files/up.json'',
              metadata = [(''provider'', PStr ''local''), (''filename'', PStr ''up.json''),
                          (''namespace'', PStr ''ns'')],
              content = Some ''[2]'', content_type = ''application/json'' \<rparr>"
  have wf1: "wf_path (home_dir lp0)" and wf2: "wf_path (rt_home_dir rp0)"
    by (simp_all add: ev)
  have "fst ?X = Inr ?r" by (simp add: ev)
  then have h: "?X = (Inr ?r, snd ?X)" by (simp add: prod_eq_iff)
  have "\<exists>c. content ?r = Some c \<and> read_bytes (snd ?X) (parse_path (path ?r)) = Inr c"
    using C1_materialized_content [OF wf1 wf2 disjI1, OF h] by blast
  then have "read_bytes (snd ?X) (parse_path ''/home/u/.docetl/ns/files/up.json'') = Inr ''[2]''"
    by simp
  moreover have "json_loads py0 ''[2]'' = Inr (JArr [JInt 2])" by (simp add: ev)
  ultimately show ?thesis using wf1 wf2 by simp
qed

subsection \<open>C2: the arguments of save_upload\<close>

text \<open>
  Claim C2 says that \<^verbatim>\<open>save_upload\<close> fails unless exactly one of the file and the URL is
  given, so also when both are. The source tests \<^verbatim>\<open>if not file and not url\<close> and then
  \<^verbatim>\<open>if url\<close>: with both given the URL is downloaded and the call succeeds.
\<close>

theorem C2_counterexample:
  "map_sum id (\<lambda>r. (path r, content r))
     (fst (save_upload py0 http0 lp0 Map.empty ''ns'' (Some up0) (Some ''http://h/d.json'')))
   = Inr (''/home/u/.docetl/ns/files/d.json'', Some ''[1]'')"
  by (simp add: ev)

text \<open>
  C2, amended: \<^verbatim>\<open>save_upload\<close> fails with status 400 and leaves the file system unchanged
  when neither a file nor a (non-empty) URL is given; when a non-empty URL is given it
  is the download of that URL, whether or not a file is given too; and when only a file
  is given it is the materialisation of that file's bytes under its name.
\<close>

theorem C2_save_upload_arguments:
  "(file = None \<and> \<not> given url \<longrightarrow>
      save_upload py http p f namespace file url
        = (Inl (HTTPException 400 ''Either file or url must be provided''), f))
   \<and> (given url \<longrightarrow>
      save_upload py http p f namespace file url = download_url py http p f namespace (the url))
   \<and> (file \<noteq> None \<and> \<not> given url \<longrightarrow>
      save_upload py http p f namespace file url
        = write_content py p f namespace (up_filename (the file)) (up_read (the file)))"
  by (simp add: save_upload_def)

theorem C2_witness:
  "save_upload py0 http0 lp0 Map.empty ''ns'' None None
     = (Inl (HTTPException 400 ''Either file or url must be provided''), Map.empty)
   \<and> save_upload py0 http0 lp0 Map.empty ''ns'' None (Some [])
     = (Inl (HTTPException 400 ''Either file or url must be provided''), Map.empty)
   \<and> save_upload py0 http0 lp0 Map.empty ''ns'' (Some up0) (Some ''http://h/d.json'')
     = download_url py0 http0 lp0 Map.empty ''ns'' ''http://h/d.json''"
  using C2_save_upload_arguments [of None None py0 http0 lp0 Map.empty "''ns''"]
    C2_save_upload_arguments [of None "Some []" py0 http0 lp0 Map.empty "''ns''"]
    C2_save_upload_arguments [of "Some up0" "Some ''http://h/d.json''" py0 http0 lp0 Map.empty
      "''ns''"]
  by (simp add: given_def)

subsection \<open>C3: the RT provider and gs:// URLs\<close>

text \<open>
  Claim C3 says that the RT provider's \<^verbatim>\<open>load_dataset\<close> of a \<^verbatim>\<open>gs://\<close> URL runs the format
  normaliser on the fetched bytes. \<^verbatim>\<open>_fetch_storage_uri\<close> hands the payload to
  \<^verbatim>\<open>_write_bytes\<close>, which stores it unchanged: CSV bytes stay CSV, where the normaliser
  would have made them JSON.
\<close>

theorem C3_counterexample:
  "map_sum id content
     (fst (rt_load_dataset http0 ConfigDisabled resolver0 rp0 Map.empty ''ns''
             (Some ''gs://bkt/x.csv'') None None None None))
   = Inr (Some csv2)
   \<and> normalize py0 csv2 ''x.csv'' = Inr json2 \<and> csv2 \<noteq> json2"
  by (simp add: ev)

text \<open>
  C3, amended: a successful \<^verbatim>\<open>load_dataset\<close> of the RT provider with a URL starting with
  \<^verbatim>\<open>gs://\<close> got a storage client, fetched the bytes with its \<^verbatim>\<open>get_file_from_uri\<close>, and
  returns these bytes unchanged as content; they are in the file named by the URL's last
  segment under the namespace directory, which is the returned path; the metadata are
  the URL as \<^verbatim>\<open>dataset_url\<close> and as \<^verbatim>\<open>source_uri\<close>, the namespace and \<^verbatim>\<open>provider = rt\<close>.
\<close>

theorem C3_rt_gs_fetch:
  assumes "given dataset_url"
    and "startswith (the dataset_url) ''gs://''"
    and "rt_load_dataset http env R p f namespace dataset_url source_version_id project_id
           env_name canonical_source_id = (Inr r, f', held)"
  shows "\<exists>storage payload.
           provider_ensure_storage (rt_storage_client p) env = (Inr storage, held)
           \<and> get_file_from_uri storage (the dataset_url) = Inr payload
           \<and> content r = Some payload
           \<and> path r = path_str (path_join (rt_namespace_dir p namespace) (url_filename (the dataset_url)))
           \<and> lookup f' (path_join (rt_namespace_dir p namespace) (url_filename (the dataset_url)))
                = Some (File payload)
           \<and> metadata r = [(''dataset_url'', PStr (the dataset_url)),
                            (''source_uri'', PStr (the dataset_url)),
                            (''namespace'', PStr namespace), (''provider'', PStr ''rt'')]"
proof -
  obtain url where url: "dataset_url = Some url" using assms(1) by (auto simp: given_def split: option.splits)
  obtain rest where rest: "url = ''gs://'' @ rest"
    using assms(2) url by (auto simp: startswith_iff)
  have nothttp: "\<not> startswith url ''http://''" "\<not> startswith url ''https://''"
    using rest by simp_all
  have "rt_fetch_storage_uri env p f namespace url [(''dataset_url'', PStr url)] = (Inr r, f', held)"
    using assms url nothttp by (simp add: rt_load_dataset_def)
  from rt_fetch_storage_uri_ok[OF this] obtain storage payload where
    s: "provider_ensure_storage (rt_storage_client p) env = (Inr storage, held)"
    and g: "get_file_from_uri storage url = Inr payload"
    and w: "rt_write_bytes p f namespace (url_filename url) payload
                (dict_union [(''dataset_url'', PStr url)] [(''source_uri'', PStr url)]) = (Inr r, f')"
    by blast
  from rt_write_bytes_ok[OF w] s g url show ?thesis
    by (simp add: dict_union_def)
qed

theorem C3_witness:
  "given (Some ''gs://bkt/x.csv'') \<and> startswith ''gs://bkt/x.csv'' ''gs://''
   \<and> get_file_from_uri client1 ''gs://bkt/x.csv'' = Inr csv2
   \<and> lookup (fst (snd (rt_load_dataset http0 ConfigDisabled resolver0 rp0 Map.empty ''ns''
                          (Some ''gs://bkt/x.csv'') None None None None)))
        (path_join (rt_namespace_dir rp0 ''ns'') ''x.csv'') = Some (File csv2)"
proof -
  let ?X = "rt_load_dataset http0 ConfigDisabled resolver0 rp0 Map.empty ''ns''
              (Some ''gs://bkt/x.csv'') None None None None"
  let ?r = "\<lparr> path = ''/home/u/.docetl/ns/rt/x.csv'',
              metadata = [(''dataset_url'', PStr ''gs://bkt/x.csv''),
                          (''source_uri'', PStr ''gs://bkt/x.csv''),
                          (''namespace'', PStr ''ns''), (''provider'', PStr ''rt'')],
              content = Some csv2, content_type = ''application/json'' \<rparr>"
  have g: "given (Some ''gs://bkt/x.csv'')" by (simp add: given_def)
  have s: "startswith (the (Some ''gs://bkt/x.csv'')) ''gs://''" by simp
  have c: "get_file_from_uri client1 ''gs://bkt/x.csv'' = Inr csv2" by (simp add: client1_def)
  have "fst ?X = Inr ?r" by (simp add: ev)
  then have h: "?X = (Inr ?r, fst (snd ?X), snd (snd ?X))" by (simp add: prod_eq_iff)
  have u: "url_filename ''gs://bkt/x.csv'' = ''x.csv''" by (simp add: url_filename_def)
  from C3_rt_gs_fetch [OF g s h] obtain payload where
    a: "content ?r = Some payload"
    and b: "lookup (fst (snd ?X))
              (path_join (rt_namespace_dir rp0 ''ns'') (url_filename (the (Some ''gs://bkt/x.csv''))))
            = Some (File payload)"
    by blast
  from a have p: "payload = csv2" by simp
  from b have "lookup (fst (snd ?X)) (path_join (rt_namespace_dir rp0 ''ns'') ''x.csv'')
            = Some (File csv2)"
    unfolding p option.sel u .
  with g c show ?thesis by simp
qed

subsection \<open>C4: the local sink's version and its file\<close>

text \<open>
  Claim C4 says that the manifest of every local save has the version \<^verbatim>\<open>"local"\<close>.
  The source computes \<^verbatim>\<open>metadata.get("version") or "local"\<close>: a save whose metadata
  carries a version reports that version.
\<close>

theorem C4_counterexample:
  "map_sum id (\<lambda>r. md_get (manifest r) ''version'')
     (fst (LocalPipelineSink_save home0 Map.empty ''ns'' ''p'' [] (Some [(''version'', PStr ''v2'')])))
   = Inr (PStr ''v2'')"
  by code_simp

text \<open>
  C4, amended: the manifest's version is the metadata's version when that is set (and
  not empty), and \<^verbatim>\<open>"local"\<close> otherwise; two saves of the same namespace and name
  return the same path, and after each save the file at that path holds the text of
  that save, so the second save overwrites the first.
\<close>

theorem C4_local_sink_version_and_overwrite:
  assumes "wf_path home"
    and "LocalPipelineSink_save home f0 namespace name yaml1 md1 = (Inr r1, f1)"
    and "LocalPipelineSink_save home f1 namespace name yaml2 md2 = (Inr r2, f2)"
  shows "md_get (manifest r1) ''version'' =
           (if truthy (md_get (or_empty md1) ''version'')
            then md_get (or_empty md1) ''version'' else PStr ''local'')
       \<and> md_get (manifest r2) ''version'' =
           (if truthy (md_get (or_empty md2) ''version'')
            then md_get (or_empty md2) ''version'' else PStr ''local'')
       \<and> psr_path r2 = psr_path r1
       \<and> psr_path r1 = path_str (local_config_file home namespace name)
       \<and> Some (read_bytes f1 (parse_path (psr_path r1))) = map_option Inr (utf8_encode yaml1)
       \<and> Some (read_bytes f2 (parse_path (psr_path r1))) = map_option Inr (utf8_encode yaml2)"
proof -
  let ?p = "local_config_file home namespace name"
  have pp: "parse_path (path_str ?p) = ?p"
    using assms(1) by (simp add: parse_path_str wf_local_config_file)
  note a = LocalPipelineSink_save_ok[OF assms(2)]
  note b = LocalPipelineSink_save_ok[OF assms(3)]
  show ?thesis
    using a(1) b(1) a(2) b(2) pp
    by (auto simp: a(3) b(3) md_get_def py_or_def read_bytes_File)
qed



theorem C4_witness:
  "wf_path home0
   \<and> read_bytes
        (snd (LocalPipelineSink_save home0
               (snd (LocalPipelineSink_save home0 Map.empty ''ns'' ''p'' [97, 58, 49] None))
               ''ns'' ''p'' [98, 58, 50] (Some [(''version'', PStr ''v2'')])))
        (parse_path ''/home/u/.docetl/ns/pipelines/configs/p.yaml'')
      = Inr ''b:2''"
proof -
  let ?X1 = "LocalPipelineSink_save home0 Map.empty ''ns'' ''p'' [97, 58, 49] None"
  let ?X2 = "LocalPipelineSink_save home0 (snd ?X1) ''ns'' ''p'' [98, 58, 50]
               (Some [(''version'', PStr ''v2'')])"
  let ?r1 = "\<lparr> psr_path = ''/home/u/.docetl/ns/pipelines/configs/p.yaml'', uri = None,
               manifest = [(''pipeline_id'', PStr ''p''), (''version'', PStr ''local''),
                           (''owner'', PNone), (''sink'', PStr ''local'')],
               input_path = PNone, output_path = PNone \<rparr>"
  let ?r2 = "\<lparr> psr_path = ''/home/u/.docetl/ns/pipelines/configs/p.yaml'', uri = None,
               manifest = [(''pipeline_id'', PStr ''p''), (''version'', PStr ''v2''),
                           (''owner'', PNone), (''sink'', PStr ''local'')],
               input_path = PNone, output_path = PNone \<rparr>"
  have wf: "wf_path home0" by (simp add: wf_path_def home0_def)
  have "fst ?X1 = Inr ?r1" by code_simp
  then have h1: "?X1 = (Inr ?r1, snd ?X1)" by (simp add: prod_eq_iff)
  have "fst ?X2 = Inr ?r2" by code_simp
  then have h2: "?X2 = (Inr ?r2, snd ?X2)" by (simp add: prod_eq_iff)
  have enc: "utf8_encode [98, 58, 50] = Some ''b:2''" by code_simp
  have "Some (read_bytes (snd ?X2) (parse_path (psr_path ?r1)))
          = map_option Inr (utf8_encode [98, 58, 50])"
    using C4_local_sink_version_and_overwrite [OF wf h1 h2] by (elim conjE)
  then have "read_bytes (snd ?X2) (parse_path (psr_path ?r1)) = Inr ''b:2''"
    unfolding enc by simp
  then show ?thesis using wf by simp
qed

subsection \<open>C5: the RT sink's versions\<close>

text \<open>
  Claim C5 says that any two saves without an explicit version get two distinct
  versions and object keys. The version is the clock reading cut to the second: the two
  saves below, made within one second with the same pipeline id, get the same version
  and the same object key.
\<close>

theorem C5_counterexample:
  "map_sum id (\<lambda>r. md_get (manifest r) ''version'')
     (fst (RTPipelineSink_save (Some client0) ConfigDisabled noon_a noon_a ''ns'' ''p'' [] None))
   = Inr (PStr ''20261104120007'')
   \<and> map_sum id (\<lambda>r. md_get (manifest r) ''version'')
     (fst (RTPipelineSink_save (Some client0) ConfigDisabled noon_b noon_b ''ns'' ''p'' [] None))
   = Inr (PStr ''20261104120007'')
   \<and> map object_key
       (snd (snd (RTPipelineSink_save (Some client0) ConfigDisabled noon_a noon_a ''ns'' ''p'' [] None)))
     = [''specs/docetl/p/20261104120007.yaml'']
   \<and> map object_key
       (snd (snd (RTPipelineSink_save (Some client0) ConfigDisabled noon_b noon_b ''ns'' ''p'' [] None)))
     = [''specs/docetl/p/20261104120007.yaml'']
   \<and> microsecond noon_a \<noteq> microsecond noon_b"
  by code_simp

text \<open>
  C5, amended: for two successful saves of the same namespace and name without an
  explicit version, at clock readings with four-digit years (1000 to 9999), the versions
  are equal exactly when the two readings fall into the same second, and so are the file
  names; the object keys are equal exactly when the readings fall into the same second
  and the two saves have the same pipeline id (the \<^verbatim>\<open>pipeline_id\<close> of the metadata, or
  else the name). So saves in different seconds get distinct versions, file names and
  object keys.
\<close>

theorem C5_rt_sink_versions:
  assumes "RTPipelineSink_save held1 env1 t1 s1 namespace name yaml1 md1 = (Inr r1, h1, reqs1)"
    and "RTPipelineSink_save held2 env2 t2 s2 namespace name yaml2 md2 = (Inr r2, h2, reqs2)"
    and "\<not> truthy (md_get (or_empty md1) ''version'')"
    and "\<not> truthy (md_get (or_empty md2) ''version'')"
    and "valid_datetime t1" and "valid_datetime t2"
  shows "(md_get (manifest r1) ''version'' = md_get (manifest r2) ''version'' \<longleftrightarrow> same_second t1 t2)
       \<and> (\<exists>q1 q2. reqs1 = [q1] \<and> reqs2 = [q2]
              \<and> (filename q1 = filename q2 \<longleftrightarrow> same_second t1 t2)
              \<and> (object_key q1 = object_key q2 \<longleftrightarrow>
                   same_second t1 t2
                   \<and> py_str (py_or (md_get (or_empty md1) ''pipeline_id'') (PStr name))
                     = py_str (py_or (md_get (or_empty md2) ''pipeline_id'') (PStr name))))"
proof -
  let ?p1 = "py_str (py_or (md_get (or_empty md1) ''pipeline_id'') (PStr name))"
  let ?p2 = "py_str (py_or (md_get (or_empty md2) ''pipeline_id'') (PStr name))"
  have eq: "strftime_compact t1 = strftime_compact t2 \<longleftrightarrow> same_second t1 t2"
    using assms(5,6) strftime_compact_inj strftime_compact_same_second by blast
  note a = RTPipelineSink_save_ok[OF assms(1) assms(3)]
  note b = RTPipelineSink_save_ok[OF assms(2) assms(4)]
  from a obtain q1 where q1: "reqs1 = [q1]" "filename q1 = strftime_compact t1 @ ''.yaml''"
    "document_id q1 = ''specs/docetl/'' @ ?p1"
    by blast
  from b obtain q2 where q2: "reqs2 = [q2]" "filename q2 = strftime_compact t2 @ ''.yaml''"
    "document_id q2 = ''specs/docetl/'' @ ?p2"
    by blast
  have fn: "filename q1 = filename q2 \<longleftrightarrow> same_second t1 t2"
    using eq q1(2) q2(2) by simp
  have len: "length (filename q1) = length (filename q2)" using q1(2) q2(2) by simp
  have "object_key q1 = object_key q2
          \<longleftrightarrow> (document_id q1 @ ''/'') @ filename q1 = (document_id q2 @ ''/'') @ filename q2"
    by (simp add: object_key_def)
  also have "\<dots> \<longleftrightarrow> document_id q1 @ ''/'' = document_id q2 @ ''/'' \<and> filename q1 = filename q2"
    using len by (rule append_eq_append_conv[OF disjI2])
  also have "\<dots> \<longleftrightarrow> ?p1 = ?p2 \<and> same_second t1 t2"
    using fn q1(3) q2(3) by simp
  finally have key: "object_key q1 = object_key q2 \<longleftrightarrow> same_second t1 t2 \<and> ?p1 = ?p2"
    by blast
  have ver: "md_get (manifest r1) ''version'' = md_get (manifest r2) ''version'' \<longleftrightarrow> same_second t1 t2"
    using a b eq by simp
  from ver q1(1) q2(1) fn key show ?thesis by blast
qed

theorem C5_witness:
  "valid_datetime noon_a \<and> valid_datetime noon_c \<and> \<not> same_second noon_a noon_c
   \<and> map_sum id (\<lambda>r. md_get (manifest r) ''version'')
        (fst (RTPipelineSink_save (Some client0) ConfigDisabled noon_a noon_a ''ns'' ''p'' [] None))
     \<noteq> map_sum id (\<lambda>r. md_get (manifest r) ''version'')
        (fst (RTPipelineSink_save (Some client0) ConfigDisabled noon_c noon_c ''ns'' ''p'' [] None))"
proof -
  let ?X1 = "RTPipelineSink_save (Some client0) ConfigDisabled noon_a noon_a ''ns'' ''p'' [] None"
  let ?X2 = "RTPipelineSink_save (Some client0) ConfigDisabled noon_c noon_c ''ns'' ''p'' [] None"
  let ?r1 = "\<lparr> psr_path = ''gs://bkt/specs/docetl/p/20261104120007.yaml'',
               uri = Some ''gs://bkt/specs/docetl/p/20261104120007.yaml'',
               manifest = [(''pipeline_id'', PStr ''p''), (''version'', PStr ''20261104120007''),
                           (''owner'', PNone), (''sink'', PStr ''rt''),
                           (''uri'', PStr ''gs://bkt/specs/docetl/p/20261104120007.yaml''),
                           (''saved_at'', PStr ''2026-11-04T12:00:07.000100+00:00'')],
               input_path = PNone, output_path = PNone \<rparr>"
  let ?r2 = "\<lparr> psr_path = ''gs://bkt/specs/docetl/p/20261104120008.yaml'',
               uri = Some ''gs://bkt/specs/docetl/p/20261104120008.yaml'',
               manifest = [(''pipeline_id'', PStr ''p''), (''version'', PStr ''20261104120008''),
                           (''owner'', PNone), (''sink'', PStr ''rt''),
                           (''uri'', PStr ''gs://bkt/specs/docetl/p/20261104120008.yaml''),
                           (''saved_at'', PStr ''2026-11-04T12:00:08+00:00'')],
               input_path = PNone, output_path = PNone \<rparr>"
  have va: "valid_datetime noon_a" and vc: "valid_datetime noon_c"
    and ns: "\<not> same_second noon_a noon_c"
    by (simp_all add: valid_datetime_def same_second_def noon_a_def noon_c_def)
  have nv: "\<not> truthy (md_get (or_empty None) ''version'')"
    by (simp add: or_empty_def md_get_def)
  have f1: "fst ?X1 = Inr ?r1" by code_simp
  then have h1: "?X1 = (Inr ?r1, fst (snd ?X1), snd (snd ?X1))" by (simp add: prod_eq_iff)
  have f2: "fst ?X2 = Inr ?r2" by code_simp
  then have h2: "?X2 = (Inr ?r2, fst (snd ?X2), snd (snd ?X2))" by (simp add: prod_eq_iff)
  have "md_get (manifest ?r1) ''version'' = md_get (manifest ?r2) ''version''
          \<longleftrightarrow> same_second noon_a noon_c"
    using C5_rt_sink_versions [OF h1 h2 nv nv va vc] by (elim conjE)
  then have "md_get (manifest ?r1) ''version'' \<noteq> md_get (manifest ?r2) ''version''"
    using ns by blast
  then show ?thesis using va vc ns f1 f2 by simp
qed

subsection \<open>C6: the stored file name\<close>

text \<open>
  Claim C6 says that a file name with the extension \<^verbatim>\<open>.csv\<close> is stored under the same base
  name with the extension \<^verbatim>\<open>.json\<close>, and every other name unchanged. The source computes
  \<^verbatim>\<open>filename.replace(".csv", ".json")\<close>, which replaces every occurrence and only in
  lower case, while the classifier beside it tests \<^verbatim>\<open>filename.lower().endswith(".csv")\<close>:
  \<^verbatim>\<open>export.csv.json\<close>, which has no \<^verbatim>\<open>.csv\<close> extension, is stored as \<^verbatim>\<open>export.json.json\<close>, and
  \<^verbatim>\<open>DATA.CSV\<close>, which is classified as CSV and converted to JSON, keeps its name.
\<close>

theorem C6_replace_is_not_an_extension_rewrite:
  "map_sum id (\<lambda>r. (path r, content r))
     (fst (save_upload py0 http0 lp0 Map.empty ''ns''
        (Some \<lparr> up_filename = Some ''export.csv.json'', up_read = ''[]'' \<rparr>) None))
   = Inr (''/home/u/.docetl/ns/files/export.json.json'', Some ''[]'')
   \<and> is_likely_csv csv2 ''DATA.CSV''
   \<and> map_sum id (\<lambda>r. (path r, content r))
     (fst (save_upload py0 http0 lp0 Map.empty ''ns''
        (Some \<lparr> up_filename = Some ''DATA.CSV'', up_read = csv2 \<rparr>) None))
   = Inr (''/home/u/.docetl/ns/files/DATA.CSV'', Some json2)"
  by (simp add: ev)

subsection \<open>C7: content that is not classified as CSV\<close>

text \<open>
  Claim C7 says that content not classified as CSV is refused with an encoding error
  when it is not valid UTF-8. The source passes the bytes to \<^verbatim>\<open>json.loads\<close>, which detects
  UTF-16 and UTF-32 and decodes with \<^verbatim>\<open>surrogatepass\<close>: the UTF-16 text \<^verbatim>\<open>1\<close> with its byte
  order mark, and a quoted lone surrogate, are not valid UTF-8 and are accepted.
\<close>

theorem C7_counterexample:
  "\<not> is_likely_csv utf16_one ''x.json'' \<and> utf8_decode False utf16_one = None
   \<and> normalize py0 utf16_one ''x.json'' = Inr utf16_one
   \<and> \<not> is_likely_csv quoted_surrogate ''x.json'' \<and> utf8_decode False quoted_surrogate = None
   \<and> normalize py0 quoted_surrogate ''x.json'' = Inr quoted_surrogate"
  by (simp add: ev)

text \<open>
  C7, amended: for content that is not classified as CSV, normalisation fails with
  status 400 exactly when \<^verbatim>\<open>json.loads\<close> raises \<^verbatim>\<open>JSONDecodeError\<close>; it raises
  \<^verbatim>\<open>UnicodeDecodeError\<close> exactly when the bytes cannot be decoded in the encoding that
  \<^verbatim>\<open>json.loads\<close> detects, \<^verbatim>\<open>RecursionError\<close> exactly when \<^verbatim>\<open>json.loads\<close> meets more nested
  arrays and objects than the interpreter has calls left, and \<^verbatim>\<open>ValueError\<close> exactly when
  \<^verbatim>\<open>json.loads\<close> meets an integer of more digits than the interpreter converts (none of the
  three is caught by the source); and it returns the content unchanged exactly when
  \<^verbatim>\<open>json.loads\<close> accepts it. In particular, when the detected encoding is UTF-8: bytes
  that are not UTF-8 even with surrogates allowed raise \<^verbatim>\<open>UnicodeDecodeError\<close>, and valid
  UTF-8 on which the decoder raises \<^verbatim>\<open>JSONDecodeError\<close> fails with status 400.
\<close>

theorem C7_non_csv_normalize:
  assumes "\<not> is_likely_csv data fname"
  shows "(normalize py data fname = Inl (HTTPException 400 ''Invalid JSON format: '')
            \<longleftrightarrow> json_loads py data = Inl JSONDecodeError)
       \<and> (normalize py data fname = Inl UnicodeDecodeError \<longleftrightarrow> decode_detected data = None)
       \<and> (normalize py data fname = Inl RecursionError \<longleftrightarrow> json_loads py data = Inl DepthError)
       \<and> (normalize py data fname = Inl ValueError \<longleftrightarrow> json_loads py data = Inl DigitsError)
       \<and> (normalize py data fname = Inr data \<longleftrightarrow> (\<exists>v. json_loads py data = Inr v))
       \<and> (detect_encoding data = UTF8 \<and> utf8_decode True data = None
            \<longrightarrow> normalize py data fname = Inl UnicodeDecodeError)
       \<and> (detect_encoding data = UTF8
            \<and> (\<exists>s. utf8_decode False data = Some s \<and> json_decode py s = Inl JSONDecodeError)
            \<longrightarrow> normalize py data fname = Inl (HTTPException 400 ''Invalid JSON format: ''))"
proof -
  have n: "normalize py data fname =
             (case validate_json_content py data of Inl e \<Rightarrow> Inl e | Inr u \<Rightarrow> Inr data)"
    using assms by (simp add: normalize_def)
  have nf: "json_loads py data \<noteq> Inl FuelError" by (rule json_loads_fuel)
  have dd: "json_loads py data = Inl DecodeError \<longleftrightarrow> decode_detected data = None"
    using json_decode_fuel
    by (auto simp: json_loads_def json_decode_def split: option.splits scan.splits if_splits)
  have 1: "normalize py data fname = Inl (HTTPException 400 ''Invalid JSON format: '')
            \<longleftrightarrow> json_loads py data = Inl JSONDecodeError"
    by (auto simp: n validate_json_content_def split: sum.splits json_error.splits)
  have 2: "normalize py data fname = Inl UnicodeDecodeError \<longleftrightarrow> decode_detected data = None"
    unfolding dd[symmetric]
    by (auto simp: n validate_json_content_def split: sum.splits json_error.splits)
  have 3: "normalize py data fname = Inl RecursionError \<longleftrightarrow> json_loads py data = Inl DepthError"
    using nf by (auto simp: n validate_json_content_def split: sum.splits json_error.splits)
  have 4: "normalize py data fname = Inl ValueError \<longleftrightarrow> json_loads py data = Inl DigitsError"
    by (auto simp: n validate_json_content_def split: sum.splits json_error.splits)
  have 5: "normalize py data fname = Inr data \<longleftrightarrow> (\<exists>v. json_loads py data = Inr v)"
    by (auto simp: n validate_json_content_def split: sum.splits json_error.splits)
  have 6: "detect_encoding data = UTF8 \<and> utf8_decode True data = None
            \<longrightarrow> normalize py data fname = Inl UnicodeDecodeError"
    by (simp add: 2 decode_detected_def)
  have 7: "detect_encoding data = UTF8
            \<and> (\<exists>s. utf8_decode False data = Some s \<and> json_decode py s = Inl JSONDecodeError)
            \<longrightarrow> normalize py data fname = Inl (HTTPException 400 ''Invalid JSON format: '')"
    by (auto simp: 1 json_loads_def decode_detected_def dest: utf8_decode_strict)
  from 1 2 3 4 5 6 7 show ?thesis by blast
qed

theorem C7_witness:
  "\<not> is_likely_csv ''{'' ''x.json''
   \<and> normalize py0 ''{'' ''x.json'' = Inl (HTTPException 400 ''Invalid JSON format: '')
   \<and> \<not> is_likely_csv [CHR 0x80] ''x.json''
   \<and> normalize py0 [CHR 0x80] ''x.json'' = Inl UnicodeDecodeError
   \<and> \<not> is_likely_csv ''[[]]'' ''x.json''
   \<and> normalize py0 ''[[]]'' ''x.json'' = Inr ''[[]]''
   \<and> normalize py_shallow ''[[]]'' ''x.json'' = Inl RecursionError
   \<and> normalize py_shallow ''[['' ''x.json'' = Inl RecursionError"
proof -
  have a: "\<not> is_likely_csv ''{'' ''x.json''" by (simp add: ev)
  have b: "\<not> is_likely_csv [CHR 0x80] ''x.json''" by (simp add: ev)
  have c: "\<not> is_likely_csv ''[[]]'' ''x.json''" by (simp add: ev)
  have d: "\<not> is_likely_csv ''[['' ''x.json''" by (simp add: ev)
  have a1: "detect_encoding ''{'' = UTF8" by (simp add: ev)
  have a2: "utf8_decode False ''{'' = Some [123]" by (simp add: ev)
  have a3: "json_decode py0 [123] = Inl JSONDecodeError" by (simp add: ev)
  have b1: "detect_encoding [CHR 0x80] = UTF8" by (simp add: ev)
  have b2: "utf8_decode True [CHR 0x80] = None" by (simp add: ev)
  have c1: "json_loads py0 ''[[]]'' = Inr (JArr [JArr []])" by (simp add: ev)
  have c2: "json_loads py_shallow ''[[]]'' = Inl DepthError" by (simp add: ev)
  have d2: "json_loads py_shallow ''[['' = Inl DepthError" by (simp add: ev)
  from C7_non_csv_normalize [OF a, of py0] a1 a2 a3
  have "normalize py0 ''{'' ''x.json'' = Inl (HTTPException 400 ''Invalid JSON format: '')" by blast
  moreover from C7_non_csv_normalize [OF b, of py0] b1 b2
  have "normalize py0 [CHR 0x80] ''x.json'' = Inl UnicodeDecodeError" by blast
  moreover from C7_non_csv_normalize [OF c, of py0] c1
  have "normalize py0 ''[[]]'' ''x.json'' = Inr ''[[]]''" by blast
  moreover from C7_non_csv_normalize [OF c, of py_shallow] c2
  have "normalize py_shallow ''[[]]'' ''x.json'' = Inl RecursionError" by blast
  moreover from C7_non_csv_normalize [OF d, of py_shallow] d2
  have "normalize py_shallow ''[['' ''x.json'' = Inl RecursionError" by blast
  ultimately show ?thesis using a b c by simp
qed

subsection \<open>C9: save_upload of the two providers\<close>




subsection \<open>C10: the envelope file\<close>



end
